theory Spec2Isabelle
  imports Complex_Main
begin

section \<open>Image streaming: the copy loop of \<^verbatim>\<open>block/stream.c\<close>\<close>

text \<open>
  The embedding follows \<^verbatim>\<open>stream_run\<close>, \<^verbatim>\<open>stream_populate\<close>, \<^verbatim>\<open>stream_prepare\<close> and
  \<^verbatim>\<open>stream_start\<close> of \<^verbatim>\<open>block/stream.c\<close> and the tracker of \<^verbatim>\<open>block/iops_tracker.c\<close>.
  The block layer and the job host (\<^verbatim>\<open>bdrv_co_is_allocated\<close>, \<^verbatim>\<open>blk_co_preadv\<close>,
  \<^verbatim>\<open>block_job_error_action\<close>, \<^verbatim>\<open>job_is_cancelled\<close>, ...) are not part of these files:
  they are parameters of the model, collected in the record \<open>stream_env\<close>. Their answers
  may change while the job runs, so each of them also receives the number of the loop
  iteration that calls it.

  The integers \<^verbatim>\<open>offset\<close>, \<^verbatim>\<open>len\<close> and \<^verbatim>\<open>n\<close> are \<^verbatim>\<open>int64_t\<close> in C; they are modelled by
  \<open>int\<close>. Signed overflow of \<^verbatim>\<open>offset += n\<close> is undefined in C and outside the model.
  A \<^verbatim>\<open>double\<close> is a value of a type \<open>'d\<close> with the operations \<open>0\<close>, \<open>1\<close>, \<open>+\<close>, \<open>*\<close>,
  \<open>/\<close> and \<open><\<close> and no algebraic law assumed of them.
\<close>

subsection \<open>Constants and enumerations\<close>

text \<open>The chunk size of the enumeration at the head of \<^verbatim>\<open>block/stream.c\<close>, in bytes.\<close>

definition STREAM_CHUNK :: int where
  "STREAM_CHUNK = 512 * 1024"

text \<open>\<^verbatim>\<open>SIZE_MAX\<close> of a 64-bit host, and the conversion of an \<^verbatim>\<open>int64_t\<close> argument to the
  \<^verbatim>\<open>uint64_t\<close> parameter of \<^verbatim>\<open>stream_populate\<close>.\<close>

definition SIZE_MAX :: int where
  "SIZE_MAX = 2 ^ 64 - 1"

definition uint64_of :: "int \<Rightarrow> int" where
  "uint64_of x = x mod 2 ^ 64"

text \<open>The conversion of the \<^verbatim>\<open>int64_t\<close> length to the \<^verbatim>\<open>int\<close> that \<^verbatim>\<open>stream_run\<close> returns.\<close>

definition int_of_int64 :: "int \<Rightarrow> int" where
  "int_of_int64 x = signed_take_bit 31 x"

text \<open>The on-error modes of a block job and the actions the job host derives from them
  (the enumerations \<^verbatim>\<open>BlockdevOnError\<close> and \<^verbatim>\<open>BlockErrorAction\<close>).\<close>

datatype BlockdevOnError =
  BLOCKDEV_ON_ERROR_REPORT
  | BLOCKDEV_ON_ERROR_IGNORE
  | BLOCKDEV_ON_ERROR_ENOSPC
  | BLOCKDEV_ON_ERROR_STOP
  | BLOCKDEV_ON_ERROR_AUTO

datatype BlockErrorAction =
  BLOCK_ERROR_ACTION_REPORT
  | BLOCK_ERROR_ACTION_IGNORE
  | BLOCK_ERROR_ACTION_STOP

subsection \<open>The job, its collaborators and the state of the loop\<close>

text \<open>\<^verbatim>\<open>StreamBlockJob\<close>, without the embedded \<^verbatim>\<open>BlockJob\<close> and the block backend, which
  belong to the job host. Nodes of the graph are natural numbers; a nullable pointer is an
  \<open>option\<close>.\<close>

record 'd StreamBlockJob =
  base_overlay :: "nat option"
  above_base :: "nat option"
  cor_filter_bs :: "nat option"
  target_bs :: "nat option"
  on_error :: BlockdevOnError
  backing_file_str :: "string option"
  backing_mask_protocol :: bool
  bs_read_only :: bool
  adaptive_stream :: bool
  adaptive_threshold :: 'd
  pause_time :: int

text \<open>What \<^verbatim>\<open>stream_run\<close> calls. The functions of the loop take the number of the
  iteration first; an allocation query returns its \<^verbatim>\<open>int\<close> result and the value it leaves
  in \<^verbatim>\<open>*pnum\<close>, and \<^verbatim>\<open>block_job_error_action\<close> takes the on-error mode, the read flag
  and the error number. \<open>bdrv_skip_filters_target\<close> and \<open>bdrv_co_getlength\<close> are the
  answers of \<^verbatim>\<open>bdrv_skip_filters\<close> and \<^verbatim>\<open>bdrv_co_getlength\<close> for \<^verbatim>\<open>s->target_bs\<close>.
  \<open>is_iops_tracker_enabled\<close> answers for the filter node, given whether the job has called
  \<^verbatim>\<open>enable_iops_tracker\<close> on it; \<open>enable_iops_tracker\<close> and \<open>disable_iops_tracker\<close> are
  the results of these calls, which decide whether a line is logged.\<close>

record 'd stream_env =
  job_is_cancelled :: "nat \<Rightarrow> bool"
  bdrv_co_is_allocated :: "nat \<Rightarrow> int \<Rightarrow> int \<Rightarrow> int \<times> int"
  bdrv_co_is_allocated_above :: "nat \<Rightarrow> int \<Rightarrow> int \<Rightarrow> int \<times> int"
  blk_co_preadv :: "nat \<Rightarrow> int \<Rightarrow> int \<Rightarrow> int"
  block_job_error_action :: "nat \<Rightarrow> BlockdevOnError \<Rightarrow> bool \<Rightarrow> int \<Rightarrow> BlockErrorAction"
  bdrv_skip_filters_target :: "nat option"
  bdrv_co_getlength :: int
  enable_iops_tracker :: bool
  is_iops_tracker_enabled :: "bool \<Rightarrow> bool"
  iops_tracker_get_rwthroughput :: "nat \<Rightarrow> 'd"
  disable_iops_tracker :: bool

text \<open>The calls the job makes to its host, recorded in the order they happen.\<close>

datatype 'd event =
  Ev_progress_set_remaining int
  | Ev_enable_iops_tracker
  | Ev_job_sleep_ns int
  | Ev_get_rwthroughput nat
  | Ev_ratelimit_sleep
  | Ev_is_cancelled bool
  | Ev_adaptive_pause 'd int
  | Ev_is_allocated int int
  | Ev_is_allocated_above int int
  | Ev_populate int int
  | Ev_error_action int BlockErrorAction
  | Ev_progress_update int
  | Ev_ratelimit_processed_bytes int
  | Ev_disable_iops_tracker

text \<open>The local variables of \<^verbatim>\<open>stream_run\<close>, the two counters the job host keeps
  (\<^verbatim>\<open>job_progress_update\<close> adds to \<open>progress\<close>, \<^verbatim>\<open>block_job_ratelimit_processed_bytes\<close> to
  \<open>processed\<close>), the number of iterations started, the calls made so far, and a history
  variable \<open>visited\<close>: the pair \<open>(offset, n)\<close> at every \<^verbatim>\<open>offset += n\<close> of the loop
  header.\<close>

record 'd stream_state =
  offset :: int
  n_bytes :: int
  error :: int
  iter :: nat
  progress :: int
  processed :: int
  visited :: "(int \<times> int) list"
  trace :: "'d event list"

definition init_state :: "'d event list \<Rightarrow> 'd stream_state" where
  "init_state tr =
     \<lparr>offset = 0, n_bytes = 0, error = 0, iter = 0, progress = 0, processed = 0,
      visited = [], trace = tr\<rparr>"

subsection \<open>One iteration\<close>

text \<open>The two ways in which \<^verbatim>\<open>stream_run\<close> leaves the defined behaviour of C: a failed
  \<^verbatim>\<open>assert\<close>, and the read of the local pointer \<^verbatim>\<open>ptm\<close> before anything was assigned to
  it.\<close>

datatype fault = Assertion_failed | Uninitialised_read

text \<open>\<^verbatim>\<open>stream_populate\<close>: the assertion on its \<^verbatim>\<open>uint64_t\<close> parameter \<^verbatim>\<open>bytes\<close>, then
  the prefetching read, whose result it returns.\<close>

definition stream_populate :: "'d stream_env \<Rightarrow> nat \<Rightarrow> int \<Rightarrow> int \<Rightarrow> fault + int" where
  "stream_populate env i off bytes =
     (if bytes < SIZE_MAX then Inr (blk_co_preadv env i off bytes) else Inl Assertion_failed)"

text \<open>The block under \<^verbatim>\<open>WITH_GRAPH_RDLOCK_GUARD\<close> in the loop: the result is
  \<open>(copy, ret, n)\<close> and the queries made.\<close>

definition classify ::
  "'d stream_env \<Rightarrow> int \<Rightarrow> nat \<Rightarrow> int \<Rightarrow> (bool \<times> int \<times> int) \<times> 'd event list" where
  "classify env len i off =
     (case bdrv_co_is_allocated env i off STREAM_CHUNK of (ret, n) \<Rightarrow>
        if ret = 1 then ((False, ret, n), [Ev_is_allocated off STREAM_CHUNK])
        else if ret \<ge> 0 then
          (case bdrv_co_is_allocated_above env i off n of (ret2, n2) \<Rightarrow>
             ((ret2 > 0, ret2, if ret2 = 0 \<and> n2 = 0 then len - off else n2),
              [Ev_is_allocated off STREAM_CHUNK, Ev_is_allocated_above off n]))
        else ((False, ret, n), [Ev_is_allocated off STREAM_CHUNK]))"

text \<open>How an iteration leaves the loop body: \<open>Continue\<close> goes back to the header, which
  runs \<^verbatim>\<open>offset += n\<close> and tests \<^verbatim>\<open>offset < len\<close>; the others leave the loop.\<close>

datatype outcome = Continue | Break_cancelled | Break_reported | Abort_assert

text \<open>The loop header's \<^verbatim>\<open>offset += n\<close>.\<close>

definition advance :: "'d stream_state \<Rightarrow> 'd stream_state" where
  "advance s = s\<lparr>offset := offset s + n_bytes s,
                 visited := visited s @ [(offset s, n_bytes s)]\<rparr>"

text \<open>The end of the body: progress is published, and the rate limiter is told of the
  bytes only when a copy was made.\<close>

definition publish :: "bool \<Rightarrow> 'd stream_state \<Rightarrow> 'd stream_state" where
  "publish copy s =
     (let n = n_bytes s;
          s1 = s\<lparr>progress := progress s + n, trace := trace s @ [Ev_progress_update n]\<rparr>
      in if copy
         then s1\<lparr>processed := processed s1 + n,
                 trace := trace s1 @ [Ev_ratelimit_processed_bytes n]\<rparr>
         else s1)"

text \<open>The part of the body from \<^verbatim>\<open>if (ret < 0)\<close> on.\<close>

definition handle_result ::
  "'d stream_env \<Rightarrow> 'd StreamBlockJob \<Rightarrow> nat \<Rightarrow> bool \<Rightarrow> int \<Rightarrow> 'd stream_state
     \<Rightarrow> outcome \<times> 'd stream_state" where
  "handle_result env job i copy ret s =
     (if ret < 0 then
        (let action = block_job_error_action env i (on_error job) True (- ret);
             s1 = s\<lparr>trace := trace s @ [Ev_error_action ret action]\<rparr>
         in if action = BLOCK_ERROR_ACTION_STOP then (Continue, advance (s1\<lparr>n_bytes := 0\<rparr>))
            else
              (let s2 = (if error s1 = 0 then s1\<lparr>error := ret\<rparr> else s1)
               in if action = BLOCK_ERROR_ACTION_REPORT then (Break_reported, s2)
                  else (Continue, advance (publish copy s2))))
      else (Continue, advance (publish copy s)))"

text \<open>The body of the \<^verbatim>\<open>for\<close> loop, with the header's increment on the paths that reach
  it.\<close>

definition stream_iter ::
  "'d stream_env \<Rightarrow> 'd StreamBlockJob \<Rightarrow> int \<Rightarrow> 'd stream_state \<Rightarrow> outcome \<times> 'd stream_state" where
  "stream_iter env job len s =
     (let i = iter s;
          s0 = s\<lparr>iter := Suc i, trace := trace s @ [Ev_ratelimit_sleep]\<rparr>
      in if job_is_cancelled env i
         then (Break_cancelled, s0\<lparr>trace := trace s0 @ [Ev_is_cancelled True]\<rparr>)
         else
           (let s1 = s0\<lparr>trace := trace s0 @ [Ev_is_cancelled False]
                           @ (if adaptive_stream job
                              then [Ev_adaptive_pause (adaptive_threshold job) (pause_time job)]
                              else [])\<rparr>
            in case classify env len i (offset s1) of ((copy, ret, n), evs) \<Rightarrow>
                 (let s2 = s1\<lparr>n_bytes := n, trace := trace s1 @ evs\<rparr>
                  in if copy then
                       (case stream_populate env i (offset s2) (uint64_of n) of
                          Inl _ \<Rightarrow> (Abort_assert, s2)
                        | Inr ret' \<Rightarrow>
                            handle_result env job i copy ret'
                              (s2\<lparr>trace := trace s2 @ [Ev_populate (offset s2) (uint64_of n)]\<rparr>))
                     else handle_result env job i copy ret s2)))"

subsection \<open>The loop\<close>

text \<open>The \<^verbatim>\<open>for\<close> loop can run forever (a stopped job retries the same offset; a query
  may report a run of zero bytes), so it is given fuel: \<open>None\<close> when the fuel does not
  reach the end of the loop. \<open>Loop_end\<close> is the exit through \<^verbatim>\<open>offset < len\<close> being
  false.\<close>

datatype loop_exit = Loop_end | Loop_break outcome

fun stream_loop ::
  "nat \<Rightarrow> 'd stream_env \<Rightarrow> 'd StreamBlockJob \<Rightarrow> int \<Rightarrow> 'd stream_state
     \<Rightarrow> (loop_exit \<times> 'd stream_state) option" where
  "stream_loop 0 env job len s = (if offset s < len then None else Some (Loop_end, s))"
| "stream_loop (Suc k) env job len s =
     (if offset s < len then
        (case stream_iter env job len s of
           (Continue, s') \<Rightarrow> stream_loop k env job len s'
         | (out, s') \<Rightarrow> Some (Loop_break out, s'))
      else Some (Loop_end, s))"

subsection \<open>Calibration and \<^verbatim>\<open>stream_run\<close>\<close>

text \<open>The literal \<^verbatim>\<open>3\<close> of \<^verbatim>\<open>threshold / 3\<close>, converted to \<^verbatim>\<open>double\<close>: in binary floating
  point \<open>1 + 1 + 1\<close> is exactly that value.\<close>

definition three :: "'d::{one,plus}" where
  "three = 1 + 1 + 1"

text \<open>The loop \<^verbatim>\<open>for (int i = 0; i < 3; i++)\<close> of the calibration: a sleep of \<^verbatim>\<open>5e9\<close>
  nanoseconds, then one throughput sample, weighted and added.\<close>

function calibration_loop ::
  "('d::{plus,times}) stream_env \<Rightarrow> 'd \<Rightarrow> nat \<Rightarrow> 'd \<Rightarrow> 'd event list \<Rightarrow> 'd \<times> 'd event list" where
  "calibration_loop env threshold_percentage i threshold tr =
     (if i < 3 then
        calibration_loop env threshold_percentage (Suc i)
          (threshold + iops_tracker_get_rwthroughput env i * threshold_percentage)
          (tr @ [Ev_job_sleep_ns 5000000000, Ev_get_rwthroughput i])
      else (threshold, tr))"
  by pat_completeness auto
termination
  by (relation "measure (\<lambda>(env, p, i, t, tr). 3 - i)") auto

text \<open>The code between \<^verbatim>\<open>job_progress_set_remaining\<close> and the main loop: the new value of
  \<^verbatim>\<open>s->adaptive_threshold\<close> and the calls made. The local \<^verbatim>\<open>struct tm *ptm\<close> is declared
  without a value; it is assigned where the start of the tracking is logged, which is under
  \<^verbatim>\<open>s->adaptive_stream && enable_iops_tracker(tracking_overlay)\<close>, and in every round of the
  calibration. The log of the threshold, made when the tracker reports enabled, reads
  \<^verbatim>\<open>ptm->tm_hour\<close>: when neither assignment has run, that read is undefined.\<close>

definition stream_calibrate ::
  "('d::{zero,one,plus,times,inverse,ord}) stream_env \<Rightarrow> 'd StreamBlockJob \<Rightarrow> 'd event list
     \<Rightarrow> fault + 'd \<times> 'd event list" where
  "stream_calibrate env job tr =
     (let ptm_assigned = (adaptive_stream job \<and> enable_iops_tracker env);
          tr1 = (if adaptive_stream job then tr @ [Ev_enable_iops_tracker] else tr);
          enabled = is_iops_tracker_enabled env (adaptive_stream job)
      in if enabled \<and> adaptive_threshold job < 1
         then (case calibration_loop env (adaptive_threshold job) 0 0 tr1 of
                 (threshold, tr2) \<Rightarrow> Inr (threshold / three, tr2))
         else if enabled \<and> \<not> ptm_assigned then Inl Uninitialised_read
         else Inr (adaptive_threshold job, tr1))"

text \<open>\<^verbatim>\<open>stream_run\<close>: the value returned (or the fault: the undefined read before the
  loop, the failed assertion of \<^verbatim>\<open>stream_populate\<close>), the job with its threshold as
  calibrated, and the final state.\<close>

definition stream_run ::
  "nat \<Rightarrow> ('d::{zero,one,plus,times,inverse,ord}) stream_env \<Rightarrow> 'd StreamBlockJob
     \<Rightarrow> ((fault + int) \<times> 'd StreamBlockJob \<times> 'd stream_state) option" where
  "stream_run fuel env job =
     (if bdrv_skip_filters_target env = base_overlay job then Some (Inr 0, job, init_state [])
      else
        (let len = bdrv_co_getlength env
         in if len < 0 then Some (Inr (int_of_int64 len), job, init_state [])
            else
              (case stream_calibrate env job [Ev_progress_set_remaining len] of
                 Inl f \<Rightarrow> Some (Inl f, job, init_state [Ev_progress_set_remaining len])
               | Inr (threshold, tr) \<Rightarrow>
                   (let job' = job\<lparr>adaptive_threshold := threshold\<rparr>
                    in case stream_loop fuel env job' len (init_state tr) of
                         None \<Rightarrow> None
                       | Some (Loop_break Abort_assert, s) \<Rightarrow> Some (Inl Assertion_failed, job', s)
                       | Some (ex, s) \<Rightarrow>
                           Some (Inr (error s), job',
                                 s\<lparr>trace := trace s @ [Ev_disable_iops_tracker]\<rparr>)))))"

section \<open>The completion of the job: \<^verbatim>\<open>stream_prepare\<close>\<close>

text \<open>The fields of \<^verbatim>\<open>BlockDriver\<close> and \<^verbatim>\<open>BlockDriverState\<close> that \<^verbatim>\<open>block/stream.c\<close>
  reads.\<close>

record BlockDriver =
  format_name :: string
  protocol_name :: "string option"
  is_filter :: bool

record BlockDriverState =
  filename :: string
  node_name :: string
  drv :: "BlockDriver option"

text \<open>The graph of block nodes as \<^verbatim>\<open>stream_prepare\<close> sees it: the node behind each number,
  the traversal functions of the block layer, and the outcome of the two operations that
  can fail (\<open>True\<close>: \<^verbatim>\<open>bdrv_set_backing_hd_drained\<close> has set its error).\<close>

record block_graph =
  bds :: "nat \<Rightarrow> BlockDriverState"
  bdrv_skip_filters :: "nat option \<Rightarrow> nat option"
  bdrv_cow_bs :: "nat option \<Rightarrow> nat option"
  bdrv_filter_or_cow_bs :: "nat option \<Rightarrow> nat option"
  bdrv_set_backing_hd_drained :: "nat option \<Rightarrow> nat option \<Rightarrow> bool"
  bdrv_change_backing_file :: "nat option \<Rightarrow> string option \<Rightarrow> string option \<Rightarrow> int"

datatype prepare_event =
  Pe_cor_filter_drop "nat option"
  | Pe_drained_begin "nat option"
  | Pe_ref nat
  | Pe_set_backing_hd "nat option" "nat option"
  | Pe_change_backing_file "nat option" "string option" "string option"
  | Pe_error_report
  | Pe_drained_end "nat option"
  | Pe_unref nat

definition EPERM :: int where
  "EPERM = 1"

text \<open>The identifier and the format that \<^verbatim>\<open>stream_prepare\<close> passes to
  \<^verbatim>\<open>bdrv_change_backing_file\<close>.\<close>

definition base_id_of :: "block_graph \<Rightarrow> 'd StreamBlockJob \<Rightarrow> nat option \<Rightarrow> string option" where
  "base_id_of g s unfiltered_base =
     (case unfiltered_base of
        None \<Rightarrow> None
      | Some ub \<Rightarrow>
          Some (case backing_file_str s of Some str \<Rightarrow> str | None \<Rightarrow> filename (bds g ub)))"

definition base_fmt_of :: "block_graph \<Rightarrow> 'd StreamBlockJob \<Rightarrow> nat option \<Rightarrow> string option" where
  "base_fmt_of g s unfiltered_base =
     (case unfiltered_base of
        None \<Rightarrow> None
      | Some ub \<Rightarrow>
          (case drv (bds g ub) of
             None \<Rightarrow> None
           | Some d \<Rightarrow>
               if backing_mask_protocol s \<and> protocol_name d \<noteq> None then Some ''raw''
               else Some (format_name d)))"

text \<open>\<^verbatim>\<open>stream_prepare\<close>: the value returned, the job with its filter pointer cleared, and
  the calls to the block layer in their order.\<close>

definition stream_prepare ::
  "block_graph \<Rightarrow> 'd StreamBlockJob \<Rightarrow> int \<times> 'd StreamBlockJob \<times> prepare_event list" where
  "stream_prepare g s =
     (let unfiltered_bs = bdrv_skip_filters g (target_bs s);
          unfiltered_bs_cow = bdrv_cow_bs g unfiltered_bs;
          s' = s\<lparr>cor_filter_bs := None\<rparr>;
          begin = [Pe_cor_filter_drop (cor_filter_bs s), Pe_drained_begin unfiltered_bs]
                  @ (case unfiltered_bs_cow of
                       None \<Rightarrow> []
                     | Some c \<Rightarrow> [Pe_ref c, Pe_drained_begin (Some c)]);
          base = bdrv_filter_or_cow_bs g (above_base s);
          unfiltered_base = bdrv_skip_filters g base;
          out = (case unfiltered_bs_cow of
                   None \<Rightarrow> []
                 | Some c \<Rightarrow> [Pe_drained_end (Some c), Pe_unref c])
                @ [Pe_drained_end unfiltered_bs]
      in case unfiltered_bs_cow of
           None \<Rightarrow> (0, s', begin @ out)
         | Some c \<Rightarrow>
             (let base_id = base_id_of g s unfiltered_base;
                  base_fmt = base_fmt_of g s unfiltered_base;
                  local_err = bdrv_set_backing_hd_drained g unfiltered_bs base;
                  ret = bdrv_change_backing_file g unfiltered_bs base_id base_fmt;
                  calls = [Pe_set_backing_hd unfiltered_bs base,
                           Pe_change_backing_file unfiltered_bs base_id base_fmt]
              in if local_err
                 then (- EPERM, s', begin @ calls @ [Pe_error_report] @ out)
                 else (ret, s', begin @ calls @ out)))"

section \<open>The start of the job: \<^verbatim>\<open>stream_start\<close>\<close>

text \<open>What \<^verbatim>\<open>stream_start\<close> asks of the graph beyond \<^verbatim>\<open>stream_prepare\<close>, and the outcomes of
  the operations of the block layer and the job host that can fail: a negative value of
  \<^verbatim>\<open>bdrv_freeze_backing_chain\<close> and \<^verbatim>\<open>bdrv_reopen_set_read_only\<close>, no node from
  \<^verbatim>\<open>bdrv_insert_node\<close>, no job from \<^verbatim>\<open>block_job_create\<close>, no backend from
  \<^verbatim>\<open>blk_new_with_bs\<close>, and the value of \<^verbatim>\<open>block_job_add_bdrv\<close> for each node.\<close>

record start_graph = block_graph +
  bdrv_filter_bs :: "nat option \<Rightarrow> nat option"
  bdrv_find_overlay :: "nat \<Rightarrow> nat option \<Rightarrow> nat option"
  bdrv_is_read_only :: "nat \<Rightarrow> bool"
  bdrv_freeze_backing_chain :: int
  bdrv_reopen_set_read_only :: int
  bdrv_insert_node :: "nat option"
  block_job_create :: bool
  blk_new_with_bs :: bool
  block_job_add_bdrv :: "nat option \<Rightarrow> int"

datatype start_event =
  Se_freeze_backing_chain
  | Se_reopen_set_read_only bool
  | Se_unfreeze_backing_chain
  | Se_insert_node
  | Se_set_implicit
  | Se_block_job_create
  | Se_blk_new_with_bs
  | Se_add_bdrv "nat option"
  | Se_job_start
  | Se_job_early_fail
  | Se_cor_filter_drop

text \<open>How \<^verbatim>\<open>stream_start\<close> ends: a failed assertion, a dereferenced null pointer, a return
  with an error before anything was created (label \<^verbatim>\<open>out_rdlock\<close>), a return through the
  label \<^verbatim>\<open>fail\<close>, or a started job.\<close>

datatype 'd start_result =
  Start_assert_failed
  | Start_null_deref
  | Start_error
  | Start_failed
  | Start_running "'d StreamBlockJob"

text \<open>The loop \<^verbatim>\<open>while (bdrv_filter_bs(above_base) != base)\<close>; \<open>None\<close> when the fuel does
  not reach its end.\<close>

fun find_above_base :: "nat \<Rightarrow> start_graph \<Rightarrow> nat option \<Rightarrow> nat option \<Rightarrow> nat option option" where
  "find_above_base 0 g cur base =
     (if bdrv_filter_bs g cur \<noteq> base then None else Some cur)"
| "find_above_base (Suc k) g cur base =
     (if bdrv_filter_bs g cur \<noteq> base then find_above_base k g (bdrv_filter_bs g cur) base
      else Some cur)"

text \<open>The loop over the intermediate nodes: \<open>False\<close> when \<^verbatim>\<open>block_job_add_bdrv\<close> failed
  for one of them.\<close>

fun add_intermediate ::
  "nat \<Rightarrow> start_graph \<Rightarrow> nat option \<Rightarrow> nat option \<Rightarrow> start_event list
     \<Rightarrow> (bool \<times> start_event list) option" where
  "add_intermediate 0 g it base evs = (if it \<noteq> base then None else Some (True, evs))"
| "add_intermediate (Suc k) g it base evs =
     (if it \<noteq> base then
        (if block_job_add_bdrv g it < 0 then Some (False, evs @ [Se_add_bdrv it])
         else add_intermediate k g (bdrv_filter_or_cow_bs g it) base (evs @ [Se_add_bdrv it]))
      else Some (True, evs))"

text \<open>The code at the label \<^verbatim>\<open>fail\<close>.\<close>

definition start_fail :: "bool \<Rightarrow> bool \<Rightarrow> bool \<Rightarrow> start_event list" where
  "start_fail have_job have_filter read_only =
     (if have_job then [Se_job_early_fail] else [])
     @ (if have_filter then [Se_cor_filter_drop] else [])
     @ (if read_only then [Se_reopen_set_read_only True] else [])"

text \<open>\<^verbatim>\<open>stream_start\<close> from the insertion of the filter node on, with the boundary
  nodes found.\<close>

definition start_job ::
  "nat \<Rightarrow> start_graph \<Rightarrow> nat \<Rightarrow> string option \<Rightarrow> bool \<Rightarrow> BlockdevOnError \<Rightarrow> string option
     \<Rightarrow> bool \<Rightarrow> 'd \<Rightarrow> int \<Rightarrow> nat option \<Rightarrow> nat option \<Rightarrow> bool \<Rightarrow> start_event list
     \<Rightarrow> ('d start_result \<times> start_event list) option" where
  "start_job fuel g bs backing_file_str' backing_mask_protocol' on_error' filter_node_name
     adaptive_stream' adaptive_threshold' pause_time' base_overlay' above_base' read_only evs =
     (case bdrv_insert_node g of
        None \<Rightarrow> Some (Start_failed, evs @ [Se_insert_node] @ start_fail False False read_only)
      | Some cor \<Rightarrow>
          (let evs1 = evs @ [Se_insert_node]
                      @ (if filter_node_name = None then [Se_set_implicit] else [])
                      @ [Se_block_job_create]
           in if \<not> block_job_create g
              then Some (Start_failed, evs1 @ start_fail False True read_only)
              else if \<not> blk_new_with_bs g
              then Some (Start_failed,
                         evs1 @ [Se_blk_new_with_bs] @ start_fail True True read_only)
              else if block_job_add_bdrv g (Some bs) \<noteq> 0
              then Some (Start_failed,
                         evs1 @ [Se_blk_new_with_bs, Se_add_bdrv (Some bs)]
                         @ start_fail True True read_only)
              else
                (case add_intermediate fuel g (bdrv_filter_or_cow_bs g (Some bs))
                        (bdrv_filter_or_cow_bs g above_base')
                        (evs1 @ [Se_blk_new_with_bs, Se_add_bdrv (Some bs)]) of
                   None \<Rightarrow> None
                 | Some (False, evs2) \<Rightarrow>
                     Some (Start_failed, evs2 @ start_fail True True read_only)
                 | Some (True, evs2) \<Rightarrow>
                     Some (Start_running
                             \<lparr>base_overlay = base_overlay', above_base = above_base',
                              cor_filter_bs = Some cor, target_bs = Some bs,
                              on_error = on_error', backing_file_str = backing_file_str',
                              backing_mask_protocol = backing_mask_protocol',
                              bs_read_only = read_only, adaptive_stream = adaptive_stream',
                              adaptive_threshold = adaptive_threshold',
                              pause_time = pause_time'\<rparr>,
                           evs2 @ [Se_job_start]))))"

text \<open>\<^verbatim>\<open>stream_start\<close> from the test of the image's read-only state on.\<close>

definition start_reopen ::
  "nat \<Rightarrow> start_graph \<Rightarrow> nat \<Rightarrow> string option \<Rightarrow> bool \<Rightarrow> BlockdevOnError \<Rightarrow> string option
     \<Rightarrow> bool \<Rightarrow> 'd \<Rightarrow> int \<Rightarrow> nat option \<Rightarrow> nat option
     \<Rightarrow> ('d start_result \<times> start_event list) option" where
  "start_reopen fuel g bs backing_file_str' backing_mask_protocol' on_error' filter_node_name
     adaptive_stream' adaptive_threshold' pause_time' base_overlay' above_base' =
     (if bdrv_is_read_only g bs then
        (if bdrv_freeze_backing_chain g < 0 then Some (Start_error, [Se_freeze_backing_chain])
         else if bdrv_reopen_set_read_only g < 0
         then Some (Start_error,
                    [Se_freeze_backing_chain, Se_reopen_set_read_only False,
                     Se_unfreeze_backing_chain])
         else start_job fuel g bs backing_file_str' backing_mask_protocol' on_error'
                filter_node_name adaptive_stream' adaptive_threshold' pause_time'
                base_overlay' above_base' True
                [Se_freeze_backing_chain, Se_reopen_set_read_only False,
                 Se_unfreeze_backing_chain])
      else start_job fuel g bs backing_file_str' backing_mask_protocol' on_error'
             filter_node_name adaptive_stream' adaptive_threshold' pause_time'
             base_overlay' above_base' False [])"

text \<open>\<^verbatim>\<open>stream_start\<close>: the two assertions on its parameters, then the choice of the
  boundary nodes from \<^verbatim>\<open>bottom\<close> or from \<^verbatim>\<open>base\<close>. The parameters \<^verbatim>\<open>job_id\<close>,
  \<^verbatim>\<open>creation_flags\<close> and \<^verbatim>\<open>speed\<close> are only handed to \<^verbatim>\<open>block_job_create\<close>.\<close>

definition stream_start ::
  "nat \<Rightarrow> start_graph \<Rightarrow> nat \<Rightarrow> nat option \<Rightarrow> string option \<Rightarrow> bool \<Rightarrow> nat option
     \<Rightarrow> BlockdevOnError \<Rightarrow> string option \<Rightarrow> bool \<Rightarrow> 'd \<Rightarrow> int
     \<Rightarrow> ('d start_result \<times> start_event list) option" where
  "stream_start fuel g bs base backing_file_str' backing_mask_protocol' bottom on_error'
     filter_node_name adaptive_stream' adaptive_threshold' pause_time' =
     (if base \<noteq> None \<and> bottom \<noteq> None then Some (Start_assert_failed, [])
      else if backing_file_str' \<noteq> None \<and> bottom \<noteq> None then Some (Start_assert_failed, [])
      else
        (case bottom of
           Some b \<Rightarrow>
             (case drv (bds g b) of
                None \<Rightarrow> Some (Start_null_deref, [])
              | Some d \<Rightarrow>
                  if is_filter d then Some (Start_assert_failed, [])
                  else start_reopen fuel g bs backing_file_str' backing_mask_protocol'
                         on_error' filter_node_name adaptive_stream' adaptive_threshold'
                         pause_time' bottom bottom)
         | None \<Rightarrow>
             (case bdrv_find_overlay g bs base of
                None \<Rightarrow> Some (if base = None then Start_null_deref else Start_error, [])
              | Some overlay \<Rightarrow>
                  (if bdrv_cow_bs g (Some overlay) \<noteq> base then
                     (case find_above_base fuel g (bdrv_cow_bs g (Some overlay)) base of
                        None \<Rightarrow> None
                      | Some cur \<Rightarrow>
                          start_reopen fuel g bs backing_file_str' backing_mask_protocol'
                            on_error' filter_node_name adaptive_stream' adaptive_threshold'
                            pause_time' (Some overlay) cur)
                   else start_reopen fuel g bs backing_file_str' backing_mask_protocol'
                          on_error' filter_node_name adaptive_stream' adaptive_threshold'
                          pause_time' (Some overlay) (Some overlay)))))"

section \<open>The throughput tracker of \<^verbatim>\<open>block/iops_tracker.c\<close>\<close>

record IOPSTracker =
  operations :: int
  start_time_ns :: int

text \<open>\<^verbatim>\<open>iops_tracker_init\<close>; the second argument is the value of the clock it reads.\<close>

definition iops_tracker_init :: "IOPSTracker \<Rightarrow> int \<Rightarrow> IOPSTracker" where
  "iops_tracker_init tracker now = tracker\<lparr>operations := 0, start_time_ns := now\<rparr>"

text \<open>\<^verbatim>\<open>iops_tracker_update\<close>: the addition, made under the mutex.\<close>

definition iops_tracker_update :: "IOPSTracker \<Rightarrow> int \<Rightarrow> IOPSTracker" where
  "iops_tracker_update tracker ops = tracker\<lparr>operations := operations tracker + ops\<rparr>"

text \<open>The part of \<^verbatim>\<open>iops_tracker_get_iops\<close> between \<^verbatim>\<open>qemu_mutex_lock\<close> and
  \<^verbatim>\<open>qemu_mutex_unlock\<close>. The value returned is the \<^verbatim>\<open>double\<close>
  \<^verbatim>\<open>operations / (elapsed_ns / 1e9)\<close>; the model keeps its two integers, the operations
  counted and the nanoseconds elapsed.\<close>

definition get_iops_locked :: "IOPSTracker \<Rightarrow> int \<Rightarrow> int \<times> int" where
  "get_iops_locked tracker now_ns = (operations tracker, now_ns - start_time_ns tracker)"

text \<open>\<^verbatim>\<open>iops_tracker_get_iops\<close> run without interruption: the sample, then the call of
  \<^verbatim>\<open>iops_tracker_init\<close> that follows the unlock.\<close>

definition iops_tracker_get_iops ::
  "IOPSTracker \<Rightarrow> int \<Rightarrow> int \<Rightarrow> (int \<times> int) \<times> IOPSTracker" where
  "iops_tracker_get_iops tracker now_ns init_ns =
     (get_iops_locked tracker now_ns, iops_tracker_init tracker init_ns)"

text \<open>Threads that share a tracker interleave at the granularity the mutex gives: a call
  of \<^verbatim>\<open>iops_tracker_update\<close> is one step, and a call of \<^verbatim>\<open>iops_tracker_get_iops\<close> is two,
  its critical section and the reset it makes after releasing the mutex.\<close>

datatype tracker_step =
  Step_update int
  | Step_get_iops_locked int
  | Step_get_iops_init int

text \<open>A schedule of such steps, run from a tracker: the final tracker and the samples
  taken, in order.\<close>

fun run_schedule ::
  "tracker_step list \<Rightarrow> IOPSTracker \<times> (int \<times> int) list \<Rightarrow> IOPSTracker \<times> (int \<times> int) list" where
  "run_schedule [] st = st"
| "run_schedule (Step_update ops # steps) (tracker, samples) =
     run_schedule steps (iops_tracker_update tracker ops, samples)"
| "run_schedule (Step_get_iops_locked now_ns # steps) (tracker, samples) =
     run_schedule steps (tracker, samples @ [get_iops_locked tracker now_ns])"
| "run_schedule (Step_get_iops_init now_ns # steps) (tracker, samples) =
     run_schedule steps (iops_tracker_init tracker now_ns, samples)"

text \<open>The operations recorded by the updates of a schedule.\<close>

fun recorded :: "tracker_step list \<Rightarrow> int" where
  "recorded [] = 0"
| "recorded (Step_update ops # steps) = ops + recorded steps"
| "recorded (step # steps) = recorded steps"

section \<open>Observations and assumptions used in the statements\<close>

text \<open>The failures of a run: the value of \<^verbatim>\<open>ret\<close> and the action answered, for every call
  of \<^verbatim>\<open>block_job_error_action\<close>, in order.\<close>

fun failures :: "'d event list \<Rightarrow> (int \<times> BlockErrorAction) list" where
  "failures [] = []"
| "failures (Ev_error_action r a # es) = (r, a) # failures es"
| "failures (e # es) = failures es"

text \<open>The value of \<^verbatim>\<open>ret\<close> of the first failure that was not answered by \<open>stop\<close>, and
  \<open>0\<close> when there is none.\<close>

definition first_error :: "'d event list \<Rightarrow> int" where
  "first_error tr =
     (case filter (\<lambda>f. snd f \<noteq> BLOCK_ERROR_ACTION_STOP) (failures tr) of
        [] \<Rightarrow> 0
      | f # fs \<Rightarrow> fst f)"

text \<open>The \<open>n\<close> that the classification of the chunk at an offset determines.\<close>

definition chunk_len :: "'d stream_env \<Rightarrow> int \<Rightarrow> nat \<Rightarrow> int \<Rightarrow> int" where
  "chunk_len env len i off = snd (snd (fst (classify env len i off)))"

text \<open>The value of \<^verbatim>\<open>ret\<close> at the test \<^verbatim>\<open>if (ret < 0)\<close> of an iteration: the result of
  the copy when one is made, of the allocation queries otherwise; \<open>None\<close> when the
  assertion of \<^verbatim>\<open>stream_populate\<close> fails.\<close>

definition iteration_ret :: "'d stream_env \<Rightarrow> int \<Rightarrow> nat \<Rightarrow> int \<Rightarrow> int option" where
  "iteration_ret env len i off =
     (case fst (classify env len i off) of (copy, ret, n) \<Rightarrow>
        if copy then (case stream_populate env i off (uint64_of n) of
                        Inl _ \<Rightarrow> None | Inr r \<Rightarrow> Some r)
        else Some ret)"

text \<open>The calls of an iteration that is not cancelled, up to the test \<^verbatim>\<open>if (ret < 0)\<close>.\<close>

definition iteration_events :: "'d stream_env \<Rightarrow> 'd StreamBlockJob \<Rightarrow> int \<Rightarrow> 'd stream_state \<Rightarrow> 'd event list" where
  "iteration_events env job len s =
     [Ev_ratelimit_sleep, Ev_is_cancelled False]
     @ (if adaptive_stream job
        then [Ev_adaptive_pause (adaptive_threshold job) (pause_time job)] else [])
     @ snd (classify env len (iter s) (offset s))
     @ (if fst (fst (classify env len (iter s) (offset s)))
        then [Ev_populate (offset s) (uint64_of (chunk_len env len (iter s) (offset s)))]
        else [])"

text \<open>The copies issued in a run: offset and length of every call of \<^verbatim>\<open>stream_populate\<close>
  that reached the read.\<close>

fun populates :: "'d event list \<Rightarrow> (int \<times> int) list" where
  "populates [] = []"
| "populates (Ev_populate off n # es) = (off, n) # populates es"
| "populates (e # es) = populates es"

text \<open>The calls that belong to the copy of a chunk and to what follows it in the body.\<close>

fun late_event :: "'d event \<Rightarrow> bool" where
  "late_event (Ev_populate off n) = True"
| "late_event (Ev_error_action r a) = True"
| "late_event (Ev_progress_update n) = True"
| "late_event (Ev_ratelimit_processed_bytes n) = True"
| "late_event e = False"

text \<open>A chunk \<open>(offset, n)\<close> covers the bytes \<open>offset \<le> x < offset + n\<close>.\<close>

definition covers :: "int \<times> int \<Rightarrow> int \<Rightarrow> bool" where
  "covers c x = (fst c \<le> x \<and> x < fst c + snd c)"

text \<open>The chunks of a list follow one another from \<open>a\<close> to \<open>b\<close>: each starts where the
  one before it ends.\<close>

fun chain :: "int \<Rightarrow> (int \<times> int) list \<Rightarrow> int \<Rightarrow> bool" where
  "chain a [] b = (a = b)"
| "chain a (c # cs) b = (fst c = a \<and> chain (a + snd c) cs b)"

text \<open>What the loop assumes of the allocation queries inside the image: the run reported by
  \<^verbatim>\<open>bdrv_co_is_allocated\<close> is not negative and does not pass the end of the image, and
  the run reported by \<^verbatim>\<open>bdrv_co_is_allocated_above\<close>, where the loop calls it, is not
  negative and not longer than the range asked for.\<close>

definition alloc_contract :: "'d stream_env \<Rightarrow> int \<Rightarrow> bool" where
  "alloc_contract env len =
     (\<forall>i off. 0 \<le> off \<and> off < len \<longrightarrow>
        (case bdrv_co_is_allocated env i off STREAM_CHUNK of (ret, n) \<Rightarrow>
           0 \<le> n \<and> n \<le> len - off \<and>
           (ret \<noteq> 1 \<and> 0 \<le> ret \<longrightarrow>
              (case bdrv_co_is_allocated_above env i off n of (ret2, n2) \<Rightarrow>
                 0 \<le> n2 \<and> n2 \<le> n))))"

text \<open>Every chunk inside the image is non-empty and no failure is answered by \<open>stop\<close>: the
  conditions under which every iteration that continues moves the offset forward.\<close>

definition makes_progress :: "'d stream_env \<Rightarrow> 'd StreamBlockJob \<Rightarrow> int \<Rightarrow> bool" where
  "makes_progress env job len =
     ((\<forall>i off. 0 \<le> off \<and> off < len \<longrightarrow> 0 < chunk_len env len i off) \<and>
      (\<forall>i e. block_job_error_action env i (on_error job) True e \<noteq> BLOCK_ERROR_ACTION_STOP))"

text \<open>Two invariants of the loop: the chunks visited have non-negative lengths and the
  offset stays inside the image; the error accumulator holds the first failure not
  answered by \<open>stop\<close>, and every failure has a negative code.\<close>

definition visit_inv :: "int \<Rightarrow> 'd stream_state \<Rightarrow> bool" where
  "visit_inv len s = ((\<forall>c\<in>set (visited s). 0 \<le> snd c) \<and> 0 \<le> offset s \<and> offset s \<le> max 0 len)"

definition err_inv :: "'d stream_state \<Rightarrow> bool" where
  "err_inv s = (error s = first_error (trace s) \<and> (\<forall>f\<in>set (failures (trace s)). fst f < 0))"

text \<open>The tracker of the filter node is the job's own: it reports enabled only when the
  job runs in adaptive mode and its call of \<^verbatim>\<open>enable_iops_tracker\<close> has succeeded. The
  filter node is created for the job by \<^verbatim>\<open>stream_start\<close>; \<^verbatim>\<open>enable_iops_tracker\<close> and
  \<^verbatim>\<open>is_iops_tracker_enabled\<close> are not part of the files modelled.\<close>

definition tracker_of_job ::
  "'d stream_env \<Rightarrow> 'd StreamBlockJob \<Rightarrow> bool" where
  "tracker_of_job env job =
     (is_iops_tracker_enabled env (adaptive_stream job) \<longrightarrow>
        adaptive_stream job \<and> enable_iops_tracker env)"

section \<open>Example hosts, jobs and graphs\<close>

text \<open>The scenario of an image of 2 MiB of which nothing is allocated in the top image and
  only \<open>[1 MiB, 1.5 MiB)\<close> is allocated in an intermediate image; no operation fails
  and the tracker is enabled exactly when the job enables it.\<close>

definition scenario_env :: "real stream_env" where
  "scenario_env =
     \<lparr>job_is_cancelled = (\<lambda>i. False),
      bdrv_co_is_allocated = (\<lambda>i off bytes. (0, min bytes (2097152 - off))),
      bdrv_co_is_allocated_above =
        (\<lambda>i off bytes. (if 1048576 \<le> off \<and> off < 1572864 then 1 else 0, bytes)),
      blk_co_preadv = (\<lambda>i off bytes. 0),
      block_job_error_action = (\<lambda>i m r e. BLOCK_ERROR_ACTION_REPORT),
      bdrv_skip_filters_target = Some 0,
      bdrv_co_getlength = 2097152,
      enable_iops_tracker = True,
      is_iops_tracker_enabled = (\<lambda>called. called),
      iops_tracker_get_rwthroughput = (\<lambda>i. 0),
      disable_iops_tracker = True\<rparr>"

text \<open>A job on the chain \<open>0 \<rightarrow> 1 \<rightarrow> 2\<close>: node 0 is the top image, node 1 the overlay
  above the base, node 3 the filter; no adaptive mode.\<close>

definition scenario_job :: "real StreamBlockJob" where
  "scenario_job =
     \<lparr>base_overlay = Some 1, above_base = Some 1, cor_filter_bs = Some 3, target_bs = Some 0,
      on_error = BLOCKDEV_ON_ERROR_REPORT, backing_file_str = None,
      backing_mask_protocol = False, bs_read_only = False,
      adaptive_stream = False, adaptive_threshold = 1, pause_time = 0\<rparr>"

text \<open>The image of the 2 MiB scenario with nothing allocated above the base.\<close>

definition blank_env :: "real stream_env" where
  "blank_env = scenario_env\<lparr>bdrv_co_is_allocated_above := (\<lambda>i off bytes. (0, bytes))\<rparr>"

text \<open>An image of 1 MiB that needs copying everywhere; the copies of the first two
  iterations fail with \<open>-5\<close> and \<open>-28\<close>, and the job host answers every failure with the
  given action.\<close>

definition faulty_env :: "BlockErrorAction \<Rightarrow> real stream_env" where
  "faulty_env act =
     \<lparr>job_is_cancelled = (\<lambda>i. False),
      bdrv_co_is_allocated = (\<lambda>i off bytes. (0, min bytes (1048576 - off))),
      bdrv_co_is_allocated_above = (\<lambda>i off bytes. (1, bytes)),
      blk_co_preadv = (\<lambda>i off bytes. if i = 0 then - 5 else if i = 1 then - 28 else 0),
      block_job_error_action = (\<lambda>i m r e. act),
      bdrv_skip_filters_target = Some 0,
      bdrv_co_getlength = 1048576,
      enable_iops_tracker = True,
      is_iops_tracker_enabled = (\<lambda>called. called),
      iops_tracker_get_rwthroughput = (\<lambda>i. 0),
      disable_iops_tracker = True\<rparr>"

text \<open>An adaptive job whose supplied threshold is \<open>-1\<close>, and a host whose tracker is
  enabled by the job and samples 10, 20 and 30.\<close>

definition negative_job :: "real StreamBlockJob" where
  "negative_job = scenario_job\<lparr>adaptive_stream := True, adaptive_threshold := - 1\<rparr>"

definition sampling_env :: "real stream_env" where
  "sampling_env = scenario_env\<lparr>iops_tracker_get_rwthroughput := (\<lambda>i. 10 * (real i + 1))\<rparr>"

text \<open>A chain \<open>0 \<rightarrow> 1 \<rightarrow> 2\<close> of overlays without filters below the top: node 0 is the top
  image, node 1 the overlay directly above the base, node 2 the base, node 3 the
  copy-on-read filter above the top.\<close>

definition overlay_chain :: block_graph where
  "overlay_chain =
     \<lparr>bds = (\<lambda>n. \<lparr>filename = (if n = 2 then ''base.img'' else ''overlay.qcow2''),
                   node_name = ''node'',
                   drv = Some \<lparr>format_name = ''qcow2'', protocol_name = None, is_filter = False\<rparr>\<rparr>),
      bdrv_skip_filters = (\<lambda>n. n),
      bdrv_cow_bs = (\<lambda>n. if n = Some 0 then Some 1 else if n = Some 1 then Some 2 else None),
      bdrv_filter_or_cow_bs =
        (\<lambda>n. if n = Some 0 then Some 1 else if n = Some 1 then Some 2 else None),
      bdrv_set_backing_hd_drained = (\<lambda>bs base. False),
      bdrv_change_backing_file = (\<lambda>bs id fmt. 0)\<rparr>"

text \<open>The chain \<open>0 \<rightarrow> 1\<close> with nothing below node 1: the whole chain is streamed.\<close>

definition whole_chain :: block_graph where
  "whole_chain =
     overlay_chain\<lparr>bdrv_cow_bs := (\<lambda>n. if n = Some 0 then Some 1 else None),
                 bdrv_filter_or_cow_bs := (\<lambda>n. if n = Some 0 then Some 1 else None)\<rparr>"

text \<open>The chain \<open>0 \<rightarrow> 1 \<rightarrow> 2\<close> with a base opened by a protocol driver and a rewrite of the
  backing reference that fails with \<open>-5\<close>; a job that masks the protocol and supplies a
  backing-file string.\<close>

definition protocol_graph :: block_graph where
  "protocol_graph =
     overlay_chain
       \<lparr>bds := (\<lambda>n. \<lparr>filename = ''nbd://host/export'', node_name = ''node'',
                     drv = Some \<lparr>format_name = ''nbd'', protocol_name = Some ''nbd'',
                                 is_filter = False\<rparr>\<rparr>),
        bdrv_change_backing_file := (\<lambda>bs id fmt. - 5)\<rparr>"

definition masking_job :: "real StreamBlockJob" where
  "masking_job =
     scenario_job\<lparr>backing_file_str := Some ''new.img'', backing_mask_protocol := True\<rparr>"

text \<open>The chain \<open>0 \<rightarrow> 1 \<rightarrow> 2\<close> as \<^verbatim>\<open>stream_start\<close> finds it: a writable top image, no
  filters, and a host whose operations all succeed and insert the filter as node 3.\<close>

definition start_chain :: start_graph where
  "start_chain =
     \<lparr>bds = bds overlay_chain,
      bdrv_skip_filters = bdrv_skip_filters overlay_chain,
      bdrv_cow_bs = bdrv_cow_bs overlay_chain,
      bdrv_filter_or_cow_bs = bdrv_filter_or_cow_bs overlay_chain,
      bdrv_set_backing_hd_drained = bdrv_set_backing_hd_drained overlay_chain,
      bdrv_change_backing_file = bdrv_change_backing_file overlay_chain,
      bdrv_filter_bs = (\<lambda>n. None),
      bdrv_find_overlay = (\<lambda>bs base. if base = Some 2 then Some 1 else if base = Some 1 then Some 0 else None),
      bdrv_is_read_only = (\<lambda>n. False),
      bdrv_freeze_backing_chain = 0,
      bdrv_reopen_set_read_only = 0,
      bdrv_insert_node = Some 3,
      block_job_create = True,
      blk_new_with_bs = True,
      block_job_add_bdrv = (\<lambda>n. 0)\<rparr>"




section \<open>Lemmas about the model\<close>

subsection \<open>One iteration\<close>

lemma failures_append: "failures (xs @ ys) = failures xs @ failures ys"
  by (induction xs rule: failures.induct) simp_all

lemma classify_failures: "classify env len i off = (r, evs) \<Longrightarrow> failures evs = []"
  by (auto simp: classify_def split: prod.splits if_splits)

lemma populates_append: "populates (xs @ ys) = populates xs @ populates ys"
  by (induction xs rule: populates.induct) simp_all

lemma handle_result_cont:
  "handle_result env job i copy ret s = (Continue, s') \<Longrightarrow>
     visited s' = visited s @ [(offset s, n_bytes s')] \<and> offset s' = offset s + n_bytes s'
     \<and> progress s' = progress s + n_bytes s' \<and> iter s' = iter s
     \<and> (n_bytes s' = n_bytes s \<or>
         (n_bytes s' = 0 \<and> ret < 0 \<and>
          block_job_error_action env i (on_error job) True (- ret) = BLOCK_ERROR_ACTION_STOP))"
  by (auto simp: handle_result_def advance_def publish_def Let_def split: if_splits)

lemma handle_result_break:
  "handle_result env job i copy ret s = (out, s') \<Longrightarrow> out \<noteq> Continue \<Longrightarrow>
     visited s' = visited s \<and> offset s' = offset s \<and> progress s' = progress s
     \<and> processed s' = processed s \<and> out = Break_reported \<and> iter s' = iter s"
  by (auto simp: handle_result_def advance_def publish_def Let_def split: if_splits)

lemma handle_result_sum:
  assumes "handle_result env job i copy ret s = (out, s')"
  shows "\<exists>evs. trace s' = trace s @ evs \<and>
     (if ret < 0
      then failures evs = [(ret, block_job_error_action env i (on_error job) True (- ret))] \<and>
           error s' = (if block_job_error_action env i (on_error job) True (- ret)
                            \<noteq> BLOCK_ERROR_ACTION_STOP \<and> error s = 0
                       then ret else error s) \<and>
           (out = Break_reported \<longleftrightarrow>
              block_job_error_action env i (on_error job) True (- ret) = BLOCK_ERROR_ACTION_REPORT) \<and>
           (out = Continue \<longleftrightarrow>
              block_job_error_action env i (on_error job) True (- ret) \<noteq> BLOCK_ERROR_ACTION_REPORT)
      else failures evs = [] \<and> error s' = error s \<and> out = Continue)"
  using assms
  by (auto simp: handle_result_def advance_def publish_def Let_def failures_append
           split: if_splits)

lemma handle_result_no_copy:
  "handle_result env job i False ret s = (out, s') \<Longrightarrow>
     populates (trace s') = populates (trace s) \<and> processed s' = processed s"
  by (auto simp: handle_result_def advance_def publish_def Let_def populates_append
           split: if_splits)

lemma handle_result_late:
  "handle_result env job i copy ret s = (out, s') \<Longrightarrow>
     \<exists>evs. trace s' = trace s @ evs \<and> (\<forall>e\<in>set evs. late_event e)"
  by (auto simp: handle_result_def advance_def publish_def Let_def split: if_splits)

lemma classify_first:
  "\<exists>evs. snd (classify env len i off) = Ev_is_allocated off STREAM_CHUNK # evs"
  by (simp add: classify_def split: prod.splits)

lemma stream_iter_cont:
  "stream_iter env job len s = (Continue, s') \<Longrightarrow>
     visited s' = visited s @ [(offset s, n_bytes s')] \<and> offset s' = offset s + n_bytes s'
     \<and> progress s' = progress s + n_bytes s' \<and> iter s' = Suc (iter s)
     \<and> (n_bytes s' = chunk_len env len (iter s) (offset s) \<or>
         (n_bytes s' = 0 \<and> (\<exists>ret. ret < 0 \<and>
          block_job_error_action env (iter s) (on_error job) True (- ret) = BLOCK_ERROR_ACTION_STOP)))"
  by (simp add: stream_iter_def Let_def chunk_len_def split: if_splits prod.splits sum.splits)
     (auto dest!: handle_result_cont)

lemma stream_iter_break:
  "stream_iter env job len s = (out, s') \<Longrightarrow> out \<noteq> Continue \<Longrightarrow>
     visited s' = visited s \<and> offset s' = offset s \<and> progress s' = progress s
     \<and> processed s' = processed s \<and> iter s' = Suc (iter s)"
  by (simp add: stream_iter_def Let_def chunk_len_def split: if_splits prod.splits sum.splits)
     (auto dest!: handle_result_break)

lemma stream_iter_failures:
  assumes "stream_iter env job len s = (out, s')"
  shows "\<exists>evs. trace s' = trace s @ evs \<and>
     ((failures evs = [] \<and> error s' = error s \<and> out \<noteq> Break_reported) \<or>
      (\<exists>ret. ret < 0 \<and> iteration_ret env len (iter s) (offset s) = Some ret \<and>
         \<not> job_is_cancelled env (iter s) \<and>
         failures evs = [(ret, block_job_error_action env (iter s) (on_error job) True (- ret))] \<and>
         error s' = (if block_job_error_action env (iter s) (on_error job) True (- ret)
                          \<noteq> BLOCK_ERROR_ACTION_STOP \<and> error s = 0
                     then ret else error s) \<and>
         (out = Break_reported \<longleftrightarrow>
            block_job_error_action env (iter s) (on_error job) True (- ret)
              = BLOCK_ERROR_ACTION_REPORT) \<and>
         (out = Continue \<longleftrightarrow>
            block_job_error_action env (iter s) (on_error job) True (- ret)
              \<noteq> BLOCK_ERROR_ACTION_REPORT)))"
proof (cases "job_is_cancelled env (iter s)")
  case True
  with assms show ?thesis
    by (auto simp: stream_iter_def Let_def)
next
  case False
  obtain copy ret n evs where cl: "classify env len (iter s) (offset s) = ((copy, ret, n), evs)"
    by (metis prod_cases3 surj_pair)
  note fe = classify_failures [OF cl]
  show ?thesis
  proof (cases copy)
    case nocopy: False
    with assms False cl obtain s2 where
      h: "handle_result env job (iter s) False ret s2 = (out, s')"
      and s2: "error s2 = error s" "\<exists>pre. trace s2 = trace s @ pre \<and> failures pre = []"
      by (auto simp: stream_iter_def Let_def fe failures_append)
    from s2 obtain pre where pre: "trace s2 = trace s @ pre" "failures pre = []" by blast
    from handle_result_sum [OF h] obtain evs' where
      e: "trace s' = trace s2 @ evs'" and
      r: "if ret < 0
      then failures evs' = [(ret, block_job_error_action env (iter s) (on_error job) True (- ret))] \<and>
           error s' = (if block_job_error_action env (iter s) (on_error job) True (- ret)
                            \<noteq> BLOCK_ERROR_ACTION_STOP \<and> error s2 = 0
                       then ret else error s2) \<and>
           (out = Break_reported \<longleftrightarrow>
              block_job_error_action env (iter s) (on_error job) True (- ret) = BLOCK_ERROR_ACTION_REPORT) \<and>
           (out = Continue \<longleftrightarrow>
              block_job_error_action env (iter s) (on_error job) True (- ret) \<noteq> BLOCK_ERROR_ACTION_REPORT)
      else failures evs' = [] \<and> error s' = error s2 \<and> out = Continue"
      by blast
    have ir: "iteration_ret env len (iter s) (offset s) = Some ret"
      using cl nocopy by (simp add: iteration_ret_def)
    have tr: "trace s' = trace s @ (pre @ evs')" and f: "failures (pre @ evs') = failures evs'"
      using e pre by (simp_all add: failures_append)
    show ?thesis
    proof (cases "ret < 0")
      case True
      with r s2(1) ir False tr f show ?thesis by (intro exI [of _ "pre @ evs'"]) simp
    next
      case False
      with r s2(1) tr f show ?thesis by (intro exI [of _ "pre @ evs'"]) simp
    qed
  next
    case docopy: True
    show ?thesis
    proof (cases "stream_populate env (iter s) (offset s) (uint64_of n)")
      case (Inl a)
      with assms False cl docopy show ?thesis
        by (auto simp: stream_iter_def Let_def fe failures_append)
    next
      case (Inr ret')
      with assms False cl docopy obtain s2 where
        h: "handle_result env job (iter s) True ret' s2 = (out, s')"
        and s2: "error s2 = error s" "\<exists>pre. trace s2 = trace s @ pre \<and> failures pre = []"
        by (auto simp: stream_iter_def Let_def fe failures_append)
      from s2 obtain pre where pre: "trace s2 = trace s @ pre" "failures pre = []" by blast
      from handle_result_sum [OF h] obtain evs' where
        e: "trace s' = trace s2 @ evs'" and
        r: "if ret' < 0
        then failures evs' = [(ret', block_job_error_action env (iter s) (on_error job) True (- ret'))] \<and>
             error s' = (if block_job_error_action env (iter s) (on_error job) True (- ret')
                              \<noteq> BLOCK_ERROR_ACTION_STOP \<and> error s2 = 0
                         then ret' else error s2) \<and>
             (out = Break_reported \<longleftrightarrow>
                block_job_error_action env (iter s) (on_error job) True (- ret') = BLOCK_ERROR_ACTION_REPORT) \<and>
             (out = Continue \<longleftrightarrow>
                block_job_error_action env (iter s) (on_error job) True (- ret') \<noteq> BLOCK_ERROR_ACTION_REPORT)
        else failures evs' = [] \<and> error s' = error s2 \<and> out = Continue"
        by blast
      have ir: "iteration_ret env len (iter s) (offset s) = Some ret'"
        using cl docopy Inr by (simp add: iteration_ret_def)
      have tr: "trace s' = trace s @ (pre @ evs')" and f: "failures (pre @ evs') = failures evs'"
        using e pre by (simp_all add: failures_append)
      show ?thesis
      proof (cases "ret' < 0")
        case True
        with r s2(1) ir False tr f show ?thesis by (intro exI [of _ "pre @ evs'"]) simp
      next
        case False
        with r s2(1) tr f show ?thesis by (intro exI [of _ "pre @ evs'"]) simp
      qed
    qed
  qed
qed


lemma iteration_events_failures: "failures (iteration_events env job len s) = []"
  by (simp add: iteration_events_def failures_append classify_failures [OF surjective_pairing])

lemma stream_iter_forward:
  assumes "\<not> job_is_cancelled env (iter s)"
    and "iteration_ret env len (iter s) (offset s) = Some ret"
  shows "stream_iter env job len s
           = handle_result env job (iter s) (fst (fst (classify env len (iter s) (offset s)))) ret
               (s\<lparr>iter := Suc (iter s), n_bytes := chunk_len env len (iter s) (offset s),
                  trace := trace s @ iteration_events env job len s\<rparr>)"
proof -
  obtain copy r n evs where cl: "classify env len (iter s) (offset s) = ((copy, r, n), evs)"
    by (metis prod_cases3 surj_pair)
  show ?thesis
  proof (cases copy)
    case False
    with assms cl show ?thesis
      by (simp add: stream_iter_def iteration_ret_def chunk_len_def Let_def iteration_events_def)
  next
    case True
    with assms cl obtain "stream_populate env (iter s) (offset s) (uint64_of n) = Inr ret"
      by (auto simp: iteration_ret_def split: sum.splits)
    with assms cl True show ?thesis
      by (simp add: stream_iter_def iteration_ret_def chunk_len_def Let_def iteration_events_def)
  qed
qed

lemma no_copy_iter:
  assumes na: "\<forall>i off b. fst (bdrv_co_is_allocated_above env i off b) \<le> 0"
    and it: "stream_iter env job len t = (out, t')"
  shows "populates (trace t') = populates (trace t) \<and> processed t' = processed t"
proof (cases "job_is_cancelled env (iter t)")
  case True
  with it show ?thesis by (auto simp: stream_iter_def Let_def populates_append)
next
  case False
  obtain copy r n evs where cl: "classify env len (iter t) (offset t) = ((copy, r, n), evs)"
    by (metis prod_cases3 surj_pair)
  obtain r1 n1 where a1: "bdrv_co_is_allocated env (iter t) (offset t) STREAM_CHUNK = (r1, n1)"
    by (cases "bdrv_co_is_allocated env (iter t) (offset t) STREAM_CHUNK")
  obtain r2 n2 where a2: "bdrv_co_is_allocated_above env (iter t) (offset t) n1 = (r2, n2)"
    by (cases "bdrv_co_is_allocated_above env (iter t) (offset t) n1")
  from na [rule_format, of "iter t" "offset t" n1] a2 have "r2 \<le> 0" by simp
  with cl a1 a2 have nc: "\<not> copy" and pe: "populates evs = []"
    by (auto simp: classify_def split: if_splits)
  from it False cl nc obtain s2 where
    h: "handle_result env job (iter t) False r s2 = (out, t')"
    and s2: "processed s2 = processed t" "populates (trace s2) = populates (trace t)"
    by (auto simp: stream_iter_def Let_def populates_append pe)
  from handle_result_no_copy [OF h] s2 show ?thesis by simp
qed

subsection \<open>The loop\<close>

lemma stream_loop_invariant:
  assumes "stream_loop fuel env job len s = Some (ex, s')"
    and "P s"
    and "\<And>t out t'. P t \<Longrightarrow> offset t < len \<Longrightarrow> stream_iter env job len t = (out, t') \<Longrightarrow> P t'"
  shows "P s'"
  using assms(1,2)
proof (induction fuel arbitrary: s)
  case 0
  then show ?case by (simp split: if_splits)
next
  case (Suc k)
  show ?case
  proof (cases "offset s < len")
    case False
    with Suc.prems show ?thesis by simp
  next
    case True
    obtain out t where it: "stream_iter env job len s = (out, t)"
      by (cases "stream_iter env job len s")
    have Pt: "P t" using assms(3) [OF Suc.prems(2) True it] .
    show ?thesis
    proof (cases out)
      case Continue
      with Suc.prems(1) True it have "stream_loop k env job len t = Some (ex, s')" by simp
      from Suc.IH [OF this Pt] show ?thesis .
    qed (use Suc.prems(1) True it Pt in auto)
  qed
qed

lemma stream_loop_end:
  "stream_loop fuel env job len s = Some (Loop_end, s') \<Longrightarrow> \<not> offset s' < len"
proof (induction fuel arbitrary: s)
  case 0
  then show ?case by (simp split: if_splits)
next
  case (Suc k)
  then show ?case
    by (auto split: if_splits prod.splits outcome.splits)
qed

lemma stream_loop_total:
  assumes inv: "\<And>t out t'. P t \<Longrightarrow> offset t < len \<Longrightarrow> stream_iter env job len t = (out, t') \<Longrightarrow> P t'"
    and step: "\<And>t t'. P t \<Longrightarrow> offset t < len \<Longrightarrow> stream_iter env job len t = (Continue, t')
                   \<Longrightarrow> offset t < offset t'"
  shows "P s \<Longrightarrow> len - offset s \<le> int fuel \<Longrightarrow> \<exists>r. stream_loop fuel env job len s = Some r"
proof (induction fuel arbitrary: s)
  case 0
  then show ?case by simp
next
  case (Suc k)
  show ?case
  proof (cases "offset s < len")
    case False
    then show ?thesis by simp
  next
    case True
    obtain out t where it: "stream_iter env job len s = (out, t)"
      by (cases "stream_iter env job len s")
    show ?thesis
    proof (cases out)
      case Continue
      with step [OF Suc.prems(1) True] it have "offset s < offset t" by simp
      with Suc.prems have "len - offset t \<le> int k" by simp
      from Suc.IH [OF inv [OF Suc.prems(1) True it] this] Continue True it show ?thesis by simp
    qed (use True it in auto)
  qed
qed

lemma stream_loop_cases:
  assumes "stream_loop fuel env job len s = Some (ex, s')"
    and "I s"
    and "\<And>t t'. I t \<Longrightarrow> offset t < len \<Longrightarrow> stream_iter env job len t = (Continue, t') \<Longrightarrow> I t'"
  shows "(ex = Loop_end \<and> I s' \<and> \<not> offset s' < len) \<or>
         (\<exists>t out. I t \<and> offset t < len \<and> out \<noteq> Continue \<and>
            stream_iter env job len t = (out, s') \<and> ex = Loop_break out)"
  using assms(1,2)
proof (induction fuel arbitrary: s)
  case 0
  then show ?case by (simp split: if_splits)
next
  case (Suc k)
  show ?case
  proof (cases "offset s < len")
    case False
    with Suc.prems show ?thesis by simp
  next
    case True
    obtain out t where it: "stream_iter env job len s = (out, t)"
      by (cases "stream_iter env job len s")
    show ?thesis
    proof (cases "out = Continue")
      case c: True
      with Suc.prems(1) True it have run: "stream_loop k env job len t = Some (ex, s')" by simp
      from assms(3) [OF Suc.prems(2) True] it c have "I t" by simp
      from Suc.IH [OF run this] show ?thesis .
    next
      case False
      with Suc.prems(1) True it have "ex = Loop_break out" "s' = t"
        by (cases out; simp)+
      with Suc.prems(2) True it False show ?thesis by blast
    qed
  qed
qed

subsection \<open>Chunks and progress\<close>

lemma chain_snoc: "chain a (cs @ [c]) b = (chain a cs (fst c) \<and> b = fst c + snd c)"
  by (induction cs arbitrary: a) auto

lemma chain_le: "chain a cs b \<Longrightarrow> \<forall>c\<in>set cs. 0 \<le> snd c \<Longrightarrow> a \<le> b"
  by (induction cs arbitrary: a) fastforce+

lemma chain_covers:
  "chain a cs b \<Longrightarrow> \<forall>c\<in>set cs. 0 \<le> snd c \<Longrightarrow> (\<exists>c\<in>set cs. covers c x) = (a \<le> x \<and> x < b)"
proof (induction cs arbitrary: a)
  case Nil
  then show ?case by auto
next
  case (Cons c cs)
  from Cons.prems have ch: "chain (a + snd c) cs b" and nn: "\<forall>d\<in>set cs. 0 \<le> snd d"
    and c: "fst c = a" "0 \<le> snd c" by auto
  from chain_le [OF ch nn] have le: "a + snd c \<le> b" .
  from Cons.IH [OF ch nn] have "(\<exists>d\<in>set cs. covers d x) = (a + snd c \<le> x \<and> x < b)" .
  with c le show ?case by (auto simp: covers_def)
qed

lemma chain_disjoint:
  "chain a cs b \<Longrightarrow> \<forall>c\<in>set cs. 0 \<le> snd c
     \<Longrightarrow> sorted_wrt (\<lambda>c d. \<forall>x. \<not> (covers c x \<and> covers d x)) cs"
proof (induction cs arbitrary: a)
  case Nil
  then show ?case by simp
next
  case (Cons c cs)
  from Cons.prems have ch: "chain (a + snd c) cs b" and nn: "\<forall>d\<in>set cs. 0 \<le> snd d"
    and c: "fst c = a" by auto
  have "\<not> (covers c x \<and> covers d x)" if "d \<in> set cs" for d x
  proof
    assume cd: "covers c x \<and> covers d x"
    with that have "\<exists>e\<in>set cs. covers e x" by blast
    with chain_covers [OF ch nn, of x] have "a + snd c \<le> x" by simp
    with cd c show False by (simp add: covers_def)
  qed
  with Cons.IH [OF ch nn] show ?case by simp
qed

lemma chunk_len_contract:
  assumes "alloc_contract env len" "0 \<le> off" "off < len"
  shows "0 \<le> chunk_len env len i off \<and> chunk_len env len i off \<le> len - off"
proof -
  obtain ret n where a: "bdrv_co_is_allocated env i off STREAM_CHUNK = (ret, n)"
    by (cases "bdrv_co_is_allocated env i off STREAM_CHUNK")
  obtain ret2 n2 where b: "bdrv_co_is_allocated_above env i off n = (ret2, n2)"
    by (cases "bdrv_co_is_allocated_above env i off n")
  from assms(2,3) have "0 \<le> off \<and> off < len" by simp
  from assms(1) [unfolded alloc_contract_def, rule_format, OF this, of i] a b
  have "0 \<le> n \<and> n \<le> len - off \<and> (ret \<noteq> 1 \<and> 0 \<le> ret \<longrightarrow> 0 \<le> n2 \<and> n2 \<le> n)"
    by simp
  with assms(2,3) show ?thesis
    by (auto simp: chunk_len_def classify_def a b)
qed

lemma visit_inv_init: "visit_inv len (init_state tr)"
  by (simp add: init_state_def visit_inv_def)

lemma visit_inv_step:
  assumes "alloc_contract env len" "visit_inv len t" "offset t < len"
    "stream_iter env job len t = (out, t')"
  shows "visit_inv len t'"
proof (cases "out = Continue")
  case True
  with assms(4) have it: "stream_iter env job len t = (Continue, t')" by simp
  from assms(2) have o: "0 \<le> offset t" by (simp add: visit_inv_def)
  note cl = chunk_len_contract [OF assms(1) o assms(3), of "iter t"]
  from stream_iter_cont [OF it] cl assms(2,3) show ?thesis
    by (auto simp: visit_inv_def)
next
  case False
  from stream_iter_break [OF assms(4) False] assms(2) show ?thesis
    by (simp add: visit_inv_def)
qed

lemma chain_init: "chain 0 (visited (init_state tr)) (offset (init_state tr))"
  by (simp add: init_state_def)

lemma chain_step:
  assumes "chain 0 (visited t) (offset t)" "stream_iter env job len t = (out, t')"
  shows "chain 0 (visited t') (offset t')"
proof (cases "out = Continue")
  case True
  with assms(2) have it: "stream_iter env job len t = (Continue, t')" by simp
  from stream_iter_cont [OF it] assms(1) show ?thesis by (simp add: chain_snoc)
next
  case False
  from stream_iter_break [OF assms(2) False] assms(1) show ?thesis by simp
qed

lemma progress_step:
  assumes mp: "makes_progress env job len" and vi: "visit_inv len t" and lt: "offset t < len"
    and it: "stream_iter env job len t = (Continue, t')"
  shows "offset t < offset t'"
proof -
  from vi have o: "0 \<le> offset t" by (simp add: visit_inv_def)
  with mp lt have "0 < chunk_len env len (iter t) (offset t)"
    by (simp add: makes_progress_def)
  moreover from mp have "\<And>ret. block_job_error_action env (iter t) (on_error job) True (- ret)
      \<noteq> BLOCK_ERROR_ACTION_STOP"
    by (simp add: makes_progress_def)
  ultimately show ?thesis using stream_iter_cont [OF it] by auto
qed

lemma progress_is_offset:
  assumes lp: "stream_loop fuel env job len (init_state tr) = Some (ex, s0)"
  shows "progress s0 = offset s0"
proof -
  have step: "progress t' = offset t'"
    if "progress t = offset t" "stream_iter env job len t = (out, t')" for t out t'
  proof (cases "out = Continue")
    case True
    with that(2) have "stream_iter env job len t = (Continue, t')" by simp
    from stream_iter_cont [OF this] that(1) show ?thesis by simp
  next
    case False
    from stream_iter_break [OF that(2) False] that(1) show ?thesis by simp
  qed
  have i0: "progress (init_state tr) = offset (init_state tr)" by (simp add: init_state_def)
  from lp i0 show ?thesis
    by (rule stream_loop_invariant [where P = "\<lambda>t. progress t = offset t"]) (rule step)
qed

lemma stream_loop_terminates:
  assumes con: "alloc_contract env len" and mp: "makes_progress env job len"
  shows "\<exists>r. stream_loop (nat len) env job len (init_state tr) = Some r"
proof (rule stream_loop_total [where P = "visit_inv len"])
  show "visit_inv len (init_state tr)" by (rule visit_inv_init)
  show "len - offset (init_state tr) \<le> int (nat len)" by (simp add: init_state_def)
  show "\<And>t out t'. visit_inv len t \<Longrightarrow> offset t < len
          \<Longrightarrow> stream_iter env job len t = (out, t') \<Longrightarrow> visit_inv len t'"
    by (rule visit_inv_step [OF con])
  show "\<And>t t'. visit_inv len t \<Longrightarrow> offset t < len
          \<Longrightarrow> stream_iter env job len t = (Continue, t') \<Longrightarrow> offset t < offset t'"
    by (rule progress_step [OF mp])
qed

subsection \<open>The error accumulator\<close>

lemma first_error_append:
  "first_error (tr @ evs) =
     (if filter (\<lambda>f. snd f \<noteq> BLOCK_ERROR_ACTION_STOP) (failures tr) = []
      then first_error evs else first_error tr)"
  by (simp add: first_error_def failures_append split: list.splits)

lemma first_error_zero:
  assumes "\<forall>f\<in>set (failures tr). fst f < 0"
  shows "first_error tr = 0 \<longleftrightarrow> filter (\<lambda>f. snd f \<noteq> BLOCK_ERROR_ACTION_STOP) (failures tr) = []"
proof (cases "filter (\<lambda>f. snd f \<noteq> BLOCK_ERROR_ACTION_STOP) (failures tr)")
  case Nil
  then show ?thesis by (simp add: first_error_def)
next
  case (Cons f fs)
  then have "f \<in> set (filter (\<lambda>f. snd f \<noteq> BLOCK_ERROR_ACTION_STOP) (failures tr))" by simp
  then have "f \<in> set (failures tr)" by simp
  with assms have "fst f < 0" by blast
  with Cons show ?thesis by (simp add: first_error_def)
qed

lemma err_inv_step:
  assumes inv: "err_inv t" and it: "stream_iter env job len t = (out, t')"
  shows "err_inv t'"
proof -
  from stream_iter_failures [OF it] obtain evs where
    tr: "trace t' = trace t @ evs" and
    c: "(failures evs = [] \<and> error t' = error t \<and> out \<noteq> Break_reported) \<or>
      (\<exists>ret. ret < 0 \<and> iteration_ret env len (iter t) (offset t) = Some ret \<and>
         \<not> job_is_cancelled env (iter t) \<and>
         failures evs = [(ret, block_job_error_action env (iter t) (on_error job) True (- ret))] \<and>
         error t' = (if block_job_error_action env (iter t) (on_error job) True (- ret)
                          \<noteq> BLOCK_ERROR_ACTION_STOP \<and> error t = 0
                     then ret else error t) \<and>
         (out = Break_reported \<longleftrightarrow>
            block_job_error_action env (iter t) (on_error job) True (- ret)
              = BLOCK_ERROR_ACTION_REPORT) \<and>
         (out = Continue \<longleftrightarrow>
            block_job_error_action env (iter t) (on_error job) True (- ret)
              \<noteq> BLOCK_ERROR_ACTION_REPORT))"
    by blast
  from inv have e: "error t = first_error (trace t)"
    and neg: "\<forall>f\<in>set (failures (trace t)). fst f < 0"
    by (simp_all add: err_inv_def)
  note z = first_error_zero [OF neg]
  from c show ?thesis
  proof
    assume a: "failures evs = [] \<and> error t' = error t \<and> out \<noteq> Break_reported"
    then have "first_error evs = 0" by (simp add: first_error_def)
    with a e z neg tr show ?thesis
      by (auto simp: err_inv_def first_error_append failures_append)
  next
    assume "\<exists>ret. ret < 0 \<and> iteration_ret env len (iter t) (offset t) = Some ret \<and>
         \<not> job_is_cancelled env (iter t) \<and>
         failures evs = [(ret, block_job_error_action env (iter t) (on_error job) True (- ret))] \<and>
         error t' = (if block_job_error_action env (iter t) (on_error job) True (- ret)
                          \<noteq> BLOCK_ERROR_ACTION_STOP \<and> error t = 0
                     then ret else error t) \<and>
         (out = Break_reported \<longleftrightarrow>
            block_job_error_action env (iter t) (on_error job) True (- ret)
              = BLOCK_ERROR_ACTION_REPORT) \<and>
         (out = Continue \<longleftrightarrow>
            block_job_error_action env (iter t) (on_error job) True (- ret)
              \<noteq> BLOCK_ERROR_ACTION_REPORT)"
    then obtain ret where r: "ret < 0"
      and f: "failures evs = [(ret, block_job_error_action env (iter t) (on_error job) True (- ret))]"
      and e': "error t' = (if block_job_error_action env (iter t) (on_error job) True (- ret)
                          \<noteq> BLOCK_ERROR_ACTION_STOP \<and> error t = 0
                     then ret else error t)"
      by blast
    have fe: "first_error evs =
        (if block_job_error_action env (iter t) (on_error job) True (- ret)
              \<noteq> BLOCK_ERROR_ACTION_STOP then ret else 0)"
      using f by (simp add: first_error_def)
    have n': "\<forall>f\<in>set (failures (trace t')). fst f < 0"
      using neg r f tr by (auto simp: failures_append)
    have "error t' = first_error (trace t')"
      using e e' z fe unfolding tr first_error_append by auto
    with n' show ?thesis by (simp add: err_inv_def)
  qed
qed

lemma stream_run_error_inv:
  fixes env :: "('d::{zero,one,plus,times,inverse,ord}) stream_env"
  assumes lp: "stream_loop fuel env job len (init_state tr) = Some (ex, s0)"
    and f: "failures tr = []"
  shows "err_inv s0"
proof -
  have i0: "err_inv (init_state tr)"
    using f by (simp add: err_inv_def init_state_def first_error_def)
  show ?thesis
    using lp i0 by (rule stream_loop_invariant [where P = err_inv]) (rule err_inv_step)
qed

lemma report_only_last:
  fixes env :: "('d::{zero,one,plus,times,inverse,ord}) stream_env"
  assumes lp: "stream_loop fuel env job len (init_state tr) = Some (ex, s0)"
    and f: "failures tr = []"
  shows "\<forall>f\<in>set (butlast (failures (trace s0))). snd f \<noteq> BLOCK_ERROR_ACTION_REPORT"
proof -
  let ?I = "\<lambda>t::'d stream_state. \<forall>f\<in>set (failures (trace t)). snd f \<noteq> BLOCK_ERROR_ACTION_REPORT"
  have i0: "?I (init_state tr)" using f by (simp add: init_state_def)
  have step: "?I t'" if "?I t" "stream_iter env job len t = (Continue, t')" for t t'
    using stream_iter_failures [OF that(2)] that(1) by (auto simp: failures_append)
  from lp i0 have "(ex = Loop_end \<and> ?I s0 \<and> \<not> offset s0 < len) \<or>
         (\<exists>t out. ?I t \<and> offset t < len \<and> out \<noteq> Continue \<and>
            stream_iter env job len t = (out, s0) \<and> ex = Loop_break out)"
    by (rule stream_loop_cases [where I = ?I]) (rule step)
  then show ?thesis
  proof
    assume "ex = Loop_end \<and> ?I s0 \<and> \<not> offset s0 < len"
    then show ?thesis by (auto dest: in_set_butlastD)
  next
    assume "\<exists>t out. ?I t \<and> offset t < len \<and> out \<noteq> Continue \<and>
            stream_iter env job len t = (out, s0) \<and> ex = Loop_break out"
    then obtain t out where It: "?I t" and it: "stream_iter env job len t = (out, s0)" by blast
    from stream_iter_failures [OF it] obtain evs where
      tr: "trace s0 = trace t @ evs" and c: "failures evs = [] \<or> (\<exists>x. failures evs = [x])"
      by auto
    from c show ?thesis
    proof
      assume "failures evs = []"
      with tr It show ?thesis by (auto simp: failures_append dest: in_set_butlastD)
    next
      assume "\<exists>x. failures evs = [x]"
      then obtain x where "failures evs = [x]" ..
      with tr It show ?thesis by (simp add: failures_append butlast_append)
    qed
  qed
qed

subsection \<open>Calibration and \<^verbatim>\<open>stream_run\<close>\<close>

lemma calibration_loop_failures:
  "failures (snd (calibration_loop env p i t tr)) = failures tr"
proof (induction env p i t tr rule: calibration_loop.induct)
  case (1 env p i t tr)
  show ?case
  proof (cases "i < 3")
    case True
    with 1 show ?thesis
      by (subst calibration_loop.simps) (simp add: failures_append)
  next
    case False
    then show ?thesis by (subst calibration_loop.simps) simp
  qed
qed

lemma stream_calibrate_failures:
  "stream_calibrate env job tr = Inr (thr, tr') \<Longrightarrow> failures tr' = failures tr"
  using calibration_loop_failures [of env "adaptive_threshold job" 0 0]
  by (auto simp: stream_calibrate_def Let_def failures_append split: if_splits prod.splits)

lemma calibration_loop_step:
  "i < 3 \<Longrightarrow> calibration_loop env p i t tr =
     calibration_loop env p (Suc i) (t + iops_tracker_get_rwthroughput env i * p)
       (tr @ [Ev_job_sleep_ns 5000000000, Ev_get_rwthroughput i])"
  by (subst calibration_loop.simps) simp

lemma calibration_loop_end: "calibration_loop env p (Suc (Suc (Suc 0))) t tr = (t, tr)"
  by (subst calibration_loop.simps) simp

lemma calibration_loop_three:
  "calibration_loop env p 0 t tr =
     (t + iops_tracker_get_rwthroughput env 0 * p
        + iops_tracker_get_rwthroughput env 1 * p
        + iops_tracker_get_rwthroughput env 2 * p,
      tr @ [Ev_job_sleep_ns 5000000000, Ev_get_rwthroughput 0,
            Ev_job_sleep_ns 5000000000, Ev_get_rwthroughput 1,
            Ev_job_sleep_ns 5000000000, Ev_get_rwthroughput 2])"
proof -
  have "calibration_loop env p 0 t tr =
      calibration_loop env p (Suc 0) (t + iops_tracker_get_rwthroughput env 0 * p)
        (tr @ [Ev_job_sleep_ns 5000000000, Ev_get_rwthroughput 0])"
    by (rule calibration_loop_step) simp
  also have "\<dots> = calibration_loop env p (Suc (Suc 0))
        (t + iops_tracker_get_rwthroughput env 0 * p + iops_tracker_get_rwthroughput env 1 * p)
        (tr @ [Ev_job_sleep_ns 5000000000, Ev_get_rwthroughput 0,
               Ev_job_sleep_ns 5000000000, Ev_get_rwthroughput 1])"
    by (subst calibration_loop_step) simp_all
  also have "\<dots> = calibration_loop env p (Suc (Suc (Suc 0)))
        (t + iops_tracker_get_rwthroughput env 0 * p + iops_tracker_get_rwthroughput env 1 * p
           + iops_tracker_get_rwthroughput env 2 * p)
        (tr @ [Ev_job_sleep_ns 5000000000, Ev_get_rwthroughput 0,
               Ev_job_sleep_ns 5000000000, Ev_get_rwthroughput 1,
               Ev_job_sleep_ns 5000000000, Ev_get_rwthroughput 2])"
    by (subst calibration_loop_step) (simp_all add: numeral_2_eq_2)
  finally show ?thesis by (simp add: calibration_loop_end)
qed

lemma stream_run_loop:
  assumes run: "stream_run fuel env job = Some (Inr rv, job', s)"
    and ne: "bdrv_skip_filters_target env \<noteq> base_overlay job"
    and len: "0 \<le> bdrv_co_getlength env"
  shows "\<exists>tr ex s0. failures tr = [] \<and> on_error job' = on_error job \<and>
           adaptive_stream job' = adaptive_stream job \<and>
           stream_loop fuel env job' (bdrv_co_getlength env) (init_state tr) = Some (ex, s0) \<and>
           ex \<noteq> Loop_break Abort_assert \<and> rv = error s0 \<and>
           s = s0\<lparr>trace := trace s0 @ [Ev_disable_iops_tracker]\<rparr>"
proof -
  from run ne len obtain thr tr where cal:
    "stream_calibrate env job [Ev_progress_set_remaining (bdrv_co_getlength env)] = Inr (thr, tr)"
    by (cases "stream_calibrate env job [Ev_progress_set_remaining (bdrv_co_getlength env)]")
       (auto simp: stream_run_def Let_def)
  from stream_calibrate_failures [OF cal] have f: "failures tr = []" by simp
  let ?job = "job\<lparr>adaptive_threshold := thr\<rparr>"
  from run ne len cal obtain ex s0 where
    lp: "stream_loop fuel env ?job (bdrv_co_getlength env) (init_state tr) = Some (ex, s0)"
    by (auto simp: stream_run_def Let_def split: option.splits)
  from run ne len cal lp have j: "job' = ?job"
    by (auto simp: stream_run_def Let_def split: loop_exit.splits outcome.splits)
  have r: "ex \<noteq> Loop_break Abort_assert \<and> rv = error s0 \<and>
             s = s0\<lparr>trace := trace s0 @ [Ev_disable_iops_tracker]\<rparr>"
    using run ne len cal lp
    by (auto simp: stream_run_def Let_def split: loop_exit.splits outcome.splits)
  from f j lp r show ?thesis by (intro exI [of _ tr] exI [of _ ex] exI [of _ s0]) simp
qed

lemma stream_run_terminates:
  fixes env :: "('d::{zero,one,plus,times,inverse,ord}) stream_env"
  assumes con: "alloc_contract env (bdrv_co_getlength env)"
    and mp: "makes_progress env job (bdrv_co_getlength env)"
  shows "\<exists>r. stream_run (nat (bdrv_co_getlength env)) env job = Some r"
proof (cases "stream_calibrate env job [Ev_progress_set_remaining (bdrv_co_getlength env)]")
  case (Inl f)
  then show ?thesis by (simp add: stream_run_def Let_def)
next
  case (Inr c)
  then obtain thr tr where cal:
    "stream_calibrate env job [Ev_progress_set_remaining (bdrv_co_getlength env)] = Inr (thr, tr)"
    by (cases c) simp
  let ?job = "job\<lparr>adaptive_threshold := thr\<rparr>"
  from mp have "makes_progress env ?job (bdrv_co_getlength env)"
    by (simp add: makes_progress_def)
  from stream_loop_terminates [OF con this, of tr] obtain ex s where
    "stream_loop (nat (bdrv_co_getlength env)) env ?job (bdrv_co_getlength env) (init_state tr)
       = Some (ex, s)"
    by auto
  with cal show ?thesis
    by (auto simp: stream_run_def Let_def split: loop_exit.splits outcome.splits)
qed

subsection \<open>Runs of the examples\<close>

lemmas run_defs =
  stream_run_def stream_calibrate_def stream_iter_def classify_def handle_result_def
  publish_def advance_def stream_populate_def init_state_def STREAM_CHUNK_def SIZE_MAX_def
  uint64_of_def Let_def

lemma scenario_loop:
  "stream_loop 4 scenario_env scenario_job 2097152 (init_state []) =
     Some (Loop_end,
       \<lparr>offset = 2097152, n_bytes = 524288, error = 0, iter = 4, progress = 2097152,
        processed = 524288,
        visited = [(0, 524288), (524288, 524288), (1048576, 524288), (1572864, 524288)],
        trace =
          [Ev_ratelimit_sleep, Ev_is_cancelled False, Ev_is_allocated 0 524288,
           Ev_is_allocated_above 0 524288, Ev_progress_update 524288,
           Ev_ratelimit_sleep, Ev_is_cancelled False, Ev_is_allocated 524288 524288,
           Ev_is_allocated_above 524288 524288, Ev_progress_update 524288,
           Ev_ratelimit_sleep, Ev_is_cancelled False, Ev_is_allocated 1048576 524288,
           Ev_is_allocated_above 1048576 524288, Ev_populate 1048576 524288,
           Ev_progress_update 524288, Ev_ratelimit_processed_bytes 524288,
           Ev_ratelimit_sleep, Ev_is_cancelled False, Ev_is_allocated 1572864 524288,
           Ev_is_allocated_above 1572864 524288, Ev_progress_update 524288]\<rparr>)"
  by (simp add: numeral_eq_Suc stream_iter_def classify_def handle_result_def publish_def
      advance_def stream_populate_def scenario_env_def scenario_job_def init_state_def
      STREAM_CHUNK_def SIZE_MAX_def uint64_of_def Let_def)

lemma scenario_contract: "alloc_contract scenario_env 2097152"
  by (simp add: alloc_contract_def scenario_env_def STREAM_CHUNK_def)

lemma scenario_progress: "makes_progress scenario_env scenario_job 2097152"
  by (simp add: makes_progress_def chunk_len_def classify_def scenario_env_def STREAM_CHUNK_def)

lemma blank_loop:
  "map_option (\<lambda>r. (fst r, progress (snd r), processed (snd r), populates (trace (snd r))))
     (stream_loop 4 blank_env scenario_job 2097152 (init_state []))
   = Some (Loop_end, 2097152, 0, [])"
  by (simp add: numeral_eq_Suc run_defs blank_env_def scenario_env_def scenario_job_def)

lemma faulty_stop_run:
  "stream_run 4 (faulty_env BLOCK_ERROR_ACTION_STOP) scenario_job =
     Some (Inr 0, scenario_job,
       \<lparr>offset = 1048576, n_bytes = 524288, error = 0, iter = 4, progress = 1048576,
        processed = 1048576,
        visited = [(0, 0), (0, 0), (0, 524288), (524288, 524288)],
        trace =
          [Ev_progress_set_remaining 1048576,
           Ev_ratelimit_sleep, Ev_is_cancelled False, Ev_is_allocated 0 524288,
           Ev_is_allocated_above 0 524288, Ev_populate 0 524288,
           Ev_error_action (- 5) BLOCK_ERROR_ACTION_STOP,
           Ev_ratelimit_sleep, Ev_is_cancelled False, Ev_is_allocated 0 524288,
           Ev_is_allocated_above 0 524288, Ev_populate 0 524288,
           Ev_error_action (- 28) BLOCK_ERROR_ACTION_STOP,
           Ev_ratelimit_sleep, Ev_is_cancelled False, Ev_is_allocated 0 524288,
           Ev_is_allocated_above 0 524288, Ev_populate 0 524288,
           Ev_progress_update 524288, Ev_ratelimit_processed_bytes 524288,
           Ev_ratelimit_sleep, Ev_is_cancelled False, Ev_is_allocated 524288 524288,
           Ev_is_allocated_above 524288 524288, Ev_populate 524288 524288,
           Ev_progress_update 524288, Ev_ratelimit_processed_bytes 524288,
           Ev_disable_iops_tracker]\<rparr>)"
  by (simp add: numeral_eq_Suc run_defs faulty_env_def scenario_job_def)

lemma faulty_ignore_run:
  "stream_run 2 (faulty_env BLOCK_ERROR_ACTION_IGNORE) scenario_job =
     Some (Inr (- 5), scenario_job,
       \<lparr>offset = 1048576, n_bytes = 524288, error = - 5, iter = 2, progress = 1048576,
        processed = 1048576,
        visited = [(0, 524288), (524288, 524288)],
        trace =
          [Ev_progress_set_remaining 1048576,
           Ev_ratelimit_sleep, Ev_is_cancelled False, Ev_is_allocated 0 524288,
           Ev_is_allocated_above 0 524288, Ev_populate 0 524288,
           Ev_error_action (- 5) BLOCK_ERROR_ACTION_IGNORE,
           Ev_progress_update 524288, Ev_ratelimit_processed_bytes 524288,
           Ev_ratelimit_sleep, Ev_is_cancelled False, Ev_is_allocated 524288 524288,
           Ev_is_allocated_above 524288 524288, Ev_populate 524288 524288,
           Ev_error_action (- 28) BLOCK_ERROR_ACTION_IGNORE,
           Ev_progress_update 524288, Ev_ratelimit_processed_bytes 524288,
           Ev_disable_iops_tracker]\<rparr>)"
  by (simp add: numeral_eq_Suc run_defs faulty_env_def scenario_job_def)

lemma faulty_report_run:
  "stream_run 2 (faulty_env BLOCK_ERROR_ACTION_REPORT) scenario_job =
     Some (Inr (- 5), scenario_job,
       \<lparr>offset = 0, n_bytes = 524288, error = - 5, iter = 1, progress = 0,
        processed = 0,
        visited = [],
        trace =
          [Ev_progress_set_remaining 1048576,
           Ev_ratelimit_sleep, Ev_is_cancelled False, Ev_is_allocated 0 524288,
           Ev_is_allocated_above 0 524288, Ev_populate 0 524288,
           Ev_error_action (- 5) BLOCK_ERROR_ACTION_REPORT,
           Ev_disable_iops_tracker]\<rparr>)"
  by (simp add: numeral_eq_Suc run_defs faulty_env_def scenario_job_def)



lemma chain_prepare:
  "stream_prepare overlay_chain scenario_job =
     (0, scenario_job\<lparr>cor_filter_bs := None\<rparr>,
      [Pe_cor_filter_drop (Some 3), Pe_drained_begin (Some 0), Pe_ref 1,
       Pe_drained_begin (Some 1), Pe_set_backing_hd (Some 0) (Some 2),
       Pe_change_backing_file (Some 0) (Some ''base.img'') (Some ''qcow2''),
       Pe_drained_end (Some 1), Pe_unref 1, Pe_drained_end (Some 0)])"
  by (simp add: stream_prepare_def base_id_of_def base_fmt_of_def overlay_chain_def
      scenario_job_def Let_def)

lemma whole_chain_prepare:
  "stream_prepare whole_chain (scenario_job\<lparr>backing_file_str := Some ''new.img''\<rparr>) =
     (0, scenario_job\<lparr>backing_file_str := Some ''new.img'', cor_filter_bs := None\<rparr>,
      [Pe_cor_filter_drop (Some 3), Pe_drained_begin (Some 0), Pe_ref 1,
       Pe_drained_begin (Some 1), Pe_set_backing_hd (Some 0) None,
       Pe_change_backing_file (Some 0) None None,
       Pe_drained_end (Some 1), Pe_unref 1, Pe_drained_end (Some 0)])"
  by (simp add: stream_prepare_def base_id_of_def base_fmt_of_def whole_chain_def
      overlay_chain_def scenario_job_def Let_def)

lemma protocol_prepare:
  "stream_prepare protocol_graph masking_job =
     (- 5, masking_job\<lparr>cor_filter_bs := None\<rparr>,
      [Pe_cor_filter_drop (Some 3), Pe_drained_begin (Some 0), Pe_ref 1,
       Pe_drained_begin (Some 1), Pe_set_backing_hd (Some 0) (Some 2),
       Pe_change_backing_file (Some 0) (Some ''new.img'') (Some ''raw''),
       Pe_drained_end (Some 1), Pe_unref 1, Pe_drained_end (Some 0)])"
  by (simp add: stream_prepare_def base_id_of_def base_fmt_of_def protocol_graph_def
      overlay_chain_def masking_job_def scenario_job_def Let_def)

lemma get_iops_two_steps:
  "run_schedule [Step_get_iops_locked now_ns, Step_get_iops_init init_ns] (tracker, [])
     = (snd (iops_tracker_get_iops tracker now_ns init_ns),
        [fst (iops_tracker_get_iops tracker now_ns init_ns)])"
  by (simp add: iops_tracker_get_iops_def)

lemma start_chain_runs:
  "stream_start 5 start_chain 0 (Some 2) None False None BLOCKDEV_ON_ERROR_REPORT None False
     (1 :: real) 0
   = Some (Start_running scenario_job,
           [Se_insert_node, Se_set_implicit, Se_block_job_create, Se_blk_new_with_bs,
            Se_add_bdrv (Some 0), Se_add_bdrv (Some 1), Se_job_start])"
  by (simp add: stream_start_def start_reopen_def start_job_def start_chain_def
      overlay_chain_def scenario_job_def numeral_eq_Suc)





section \<open>The claims\<close>

subsection \<open>The offsets visited partition the image\<close>

text \<open>
  Claim C1. In every run of the loop of \<^verbatim>\<open>stream_run\<close> that returns, each pass through
  the loop header advances \<open>offset\<close> by the \<open>n\<close> of that iteration (\<open>0\<close> on a
  stop-action retry) and the chunks \<open>(offset, n)\<close> follow one another without a gap from
  \<open>0\<close> to the final offset (\<open>chain\<close>). When the allocation queries keep their
  contract (the run they report is not negative, not longer than the range asked for and
  does not pass the end of the image), no byte lies in two chunks, the chunks cover
  exactly the bytes below the final offset, and a loop that ends through its condition
  has covered exactly \<open>[0, len)\<close>. The loop does end, within \<open>len\<close> iterations, when
  moreover every chunk is non-empty and no error action is \<open>stop\<close>.
\<close>

theorem stream_run_offsets_partition:
  "(\<forall>fuel ex s. stream_loop fuel env job len (init_state tr) = Some (ex, s) \<longrightarrow>
      chain 0 (visited s) (offset s) \<and>
      (alloc_contract env len \<longrightarrow>
         (\<forall>i j. i < j \<and> j < length (visited s) \<longrightarrow>
            \<not> (\<exists>x. covers (visited s ! i) x \<and> covers (visited s ! j) x)) \<and>
         (\<forall>x. (\<exists>c\<in>set (visited s). covers c x) = (0 \<le> x \<and> x < offset s)) \<and>
         offset s \<le> max 0 len \<and>
         (ex = Loop_end \<longrightarrow> offset s = max 0 len))) \<and>
   (alloc_contract env len \<and> makes_progress env job len \<longrightarrow>
      (\<exists>r. stream_loop (nat len) env job len (init_state tr) = Some r))"
proof (intro conjI allI impI)
  fix fuel ex s
  assume run: "stream_loop fuel env job len (init_state tr) = Some (ex, s)"
  show ch: "chain 0 (visited s) (offset s)"
    using run chain_init
    by (rule stream_loop_invariant [where P = "\<lambda>t. chain 0 (visited t) (offset t)"])
       (rule chain_step)
  assume con: "alloc_contract env len"
  have vi: "visit_inv len s"
    using run visit_inv_init
    by (rule stream_loop_invariant [where P = "visit_inv len"])
       (rule visit_inv_step [OF con])
  then have nn: "\<forall>c\<in>set (visited s). 0 \<le> snd c" by (simp add: visit_inv_def)
  have "sorted_wrt (\<lambda>c d. \<forall>x. \<not> (covers c x \<and> covers d x)) (visited s)"
    by (rule chain_disjoint [OF ch nn])
  then show "\<And>i j. i < j \<and> j < length (visited s) \<Longrightarrow>
            \<not> (\<exists>x. covers (visited s ! i) x \<and> covers (visited s ! j) x)"
    unfolding sorted_wrt_iff_nth_less by blast
  show "\<And>x. (\<exists>c\<in>set (visited s). covers c x) = (0 \<le> x \<and> x < offset s)"
    by (rule chain_covers [OF ch nn])
  from vi show le: "offset s \<le> max 0 len" by (simp add: visit_inv_def)
  assume "ex = Loop_end"
  with run have "\<not> offset s < len" by (simp add: stream_loop_end)
  with vi show "offset s = max 0 len" by (simp add: visit_inv_def max_def split: if_splits)
next
  assume a: "alloc_contract env len \<and> makes_progress env job len"
  then have con: "alloc_contract env len" and mp: "makes_progress env job len" by simp_all
  show "\<exists>r. stream_loop (nat len) env job len (init_state tr) = Some r"
  proof (rule stream_loop_total [where P = "visit_inv len"])
    show "visit_inv len (init_state tr)" by (rule visit_inv_init)
    show "len - offset (init_state tr) \<le> int (nat len)" by (simp add: init_state_def)
    show "\<And>t out t'. visit_inv len t \<Longrightarrow> offset t < len
            \<Longrightarrow> stream_iter env job len t = (out, t') \<Longrightarrow> visit_inv len t'"
      by (rule visit_inv_step [OF con])
    show "\<And>t t'. visit_inv len t \<Longrightarrow> offset t < len
            \<Longrightarrow> stream_iter env job len t = (Continue, t') \<Longrightarrow> offset t < offset t'"
      by (rule progress_step [OF mp])
  qed
qed

theorem stream_run_offsets_partition_witness:
  "alloc_contract scenario_env 2097152 \<and> makes_progress scenario_env scenario_job 2097152 \<and>
   (\<exists>s. stream_loop 4 scenario_env scenario_job 2097152 (init_state []) = Some (Loop_end, s) \<and>
        visited s = [(0, 524288), (524288, 524288), (1048576, 524288), (1572864, 524288)] \<and>
        chain 0 (visited s) (offset s) \<and> offset s = 2097152 \<and>
        (\<forall>x. (\<exists>c\<in>set (visited s). covers c x) = (0 \<le> x \<and> x < 2097152)) \<and>
        (\<forall>x. \<not> (covers (visited s ! 1) x \<and> covers (visited s ! 2) x))) \<and>
   (\<exists>r. stream_loop (nat 2097152) scenario_env scenario_job 2097152 (init_state []) = Some r)"
proof -
  note inst = stream_run_offsets_partition [of scenario_env scenario_job 2097152 "[]"]
  note run = inst [THEN conjunct1, rule_format, OF scenario_loop]
  note part = run [THEN conjunct2, rule_format, OF scenario_contract]
  from run have ch: "chain 0 [(0, 524288), (524288, 524288), (1048576, 524288), (1572864, 524288)]
      2097152"
    by simp
  from part have cov: "\<forall>x. (\<exists>c\<in>{(0, 524288), (524288, 524288), (1048576, 524288),
      (1572864, 524288)}. covers c x) = (0 \<le> x \<and> x < 2097152)"
    by simp
  from part [THEN conjunct1, rule_format, of 1 2]
  have dis: "\<forall>x. \<not> (covers (524288, 524288) x \<and> covers (1048576, 524288) x)"
    by simp
  from inst scenario_contract scenario_progress
  have tot: "\<exists>r. stream_loop (nat 2097152) scenario_env scenario_job 2097152 (init_state [])
      = Some r"
    by simp
  show ?thesis
    using scenario_contract scenario_progress tot ch cov dis
    by (simp add: scenario_loop)
qed

subsection \<open>Published progress and bytes copied\<close>

text \<open>
  Claim C2, as stated, fails: \<^verbatim>\<open>job_progress_update\<close> is called with \<open>n\<close> in every
  iteration that reaches the end of the body, whether or not a copy was made. On the
  2 MiB image with nothing allocated above the base the run makes no copy and ends with
  a published progress of 2 MiB, not 0; with only \<open>[1 MiB, 1.5 MiB)\<close> to copy it makes
  the one copy of 512 KiB and again publishes 2 MiB, of which only the 512 KiB are
  reported to the rate limiter.
\<close>

theorem progress_not_bytes_copied_counterexample:
  "map_option (progress \<circ> snd) (stream_loop 4 blank_env scenario_job 2097152 (init_state []))
     = Some 2097152 \<and>
   map_option (populates \<circ> trace \<circ> snd)
     (stream_loop 4 blank_env scenario_job 2097152 (init_state [])) = Some [] \<and>
   map_option (progress \<circ> snd)
     (stream_loop 4 scenario_env scenario_job 2097152 (init_state [])) = Some 2097152 \<and>
   map_option (populates \<circ> trace \<circ> snd)
     (stream_loop 4 scenario_env scenario_job 2097152 (init_state []))
     = Some [(1048576, 524288)]"
  using blank_loop by (auto simp: scenario_loop)

text \<open>
  Claim C2, amended. In every run of the loop that returns, the published progress equals
  the final offset: all bytes classified, copied or not (the whole length when the loop
  ends through its condition and the queries keep their contract). When no allocation
  query above the base ever answers a positive value, no copy is issued and nothing is
  reported to the rate limiter.
\<close>

theorem stream_run_progress_is_offset:
  "\<forall>fuel ex s. stream_loop fuel env job len (init_state tr) = Some (ex, s) \<longrightarrow>
      progress s = offset s \<and>
      (alloc_contract env len \<and> ex = Loop_end \<longrightarrow> progress s = max 0 len) \<and>
      ((\<forall>i off b. fst (bdrv_co_is_allocated_above env i off b) \<le> 0) \<longrightarrow>
         populates (trace s) = populates tr \<and> processed s = 0)"
proof (intro allI impI conjI)
  fix fuel ex s
  assume run: "stream_loop fuel env job len (init_state tr) = Some (ex, s)"
  show po: "progress s = offset s" by (rule progress_is_offset [OF run])
  {
    assume a: "alloc_contract env len \<and> ex = Loop_end"
    then have con: "alloc_contract env len" and e: "ex = Loop_end" by simp_all
    have vi: "visit_inv len s"
      using run visit_inv_init
      by (rule stream_loop_invariant [where P = "visit_inv len"])
         (rule visit_inv_step [OF con])
    from run e have "\<not> offset s < len" by (simp add: stream_loop_end)
    with vi po show "progress s = max 0 len"
      by (simp add: visit_inv_def max_def split: if_splits)
  }
  assume na: "\<forall>i off b. fst (bdrv_co_is_allocated_above env i off b) \<le> 0"
  let ?P = "\<lambda>t. populates (trace t) = populates tr \<and> processed t = 0"
  have i0: "?P (init_state tr)" by (simp add: init_state_def)
  have step: "?P t'" if "?P t" "stream_iter env job len t = (out, t')" for t out t'
    using no_copy_iter [OF na that(2)] that(1) by simp
  from run i0 have "?P s"
    by (rule stream_loop_invariant [where P = ?P]) (rule step)
  then show "populates (trace s) = populates tr" and "processed s = 0" by simp_all
qed

theorem stream_run_progress_is_offset_witness:
  "alloc_contract scenario_env 2097152 \<and>
   (\<forall>i off b. fst (bdrv_co_is_allocated_above blank_env i off b) \<le> 0) \<and>
   (\<exists>s. stream_loop 4 scenario_env scenario_job 2097152 (init_state []) = Some (Loop_end, s) \<and>
        progress s = 2097152 \<and> offset s = 2097152 \<and> processed s = 524288) \<and>
   (\<exists>s. stream_loop 4 blank_env scenario_job 2097152 (init_state []) = Some (Loop_end, s) \<and>
        progress s = 2097152 \<and> populates (trace s) = [] \<and> processed s = 0)"
proof -
  have na: "\<forall>i off b. fst (bdrv_co_is_allocated_above blank_env i off b) \<le> 0"
    by (simp add: blank_env_def)
  from blank_loop obtain s where
    b: "stream_loop 4 blank_env scenario_job 2097152 (init_state []) = Some (Loop_end, s)"
    by auto
  from stream_run_progress_is_offset [of blank_env scenario_job 2097152 "[]", rule_format, OF b]
  have "progress s = offset s" and
    "(\<forall>i off b. fst (bdrv_co_is_allocated_above blank_env i off b) \<le> 0) \<longrightarrow>
       populates (trace s) = populates [] \<and> processed s = 0"
    by simp_all
  with na blank_loop b have p2: "progress s = 2097152 \<and> populates (trace s) = [] \<and> processed s = 0"
    by simp
  from stream_run_progress_is_offset [of scenario_env scenario_job 2097152 "[]", rule_format,
      OF scenario_loop] scenario_contract
  have p1: "\<exists>s. stream_loop 4 scenario_env scenario_job 2097152 (init_state [])
      = Some (Loop_end, s) \<and> progress s = 2097152 \<and> offset s = 2097152 \<and> processed s = 524288"
    by (simp add: scenario_loop)
  from scenario_contract na p1 b p2 show ?thesis by blast
qed

subsection \<open>The report action\<close>

text \<open>
  Claim C3. In an iteration whose allocation query or copy fails and whose error action
  is \<open>report\<close>, the loop is left at once: the offset stays at the start of the failing
  chunk, nothing is published for the chunk (the call of the error action is the last
  call of the iteration) and the error code enters the accumulator if that is still zero.
  In a run of \<^verbatim>\<open>stream_run\<close> in which no failure was answered by \<open>ignore\<close>, as under
  \<^verbatim>\<open>on_error = report\<close>, a failure answered by \<open>report\<close> is the last failure of the run
  and its code is the value returned; without such a failure the run returns \<open>0\<close>. The
  published progress equals the final offset.
\<close>

theorem stream_run_report_exits_at_failure:
  fixes env :: "('d::{zero,one,plus,times,inverse,ord}) stream_env"
  shows
  "(offset s < len \<and> \<not> job_is_cancelled env (iter s) \<and>
    iteration_ret env len (iter s) (offset s) = Some ret \<and> ret < 0 \<and>
    block_job_error_action env (iter s) (on_error job) True (- ret) = BLOCK_ERROR_ACTION_REPORT \<longrightarrow>
      (\<exists>s'. stream_loop (Suc k) env job len s = Some (Loop_break Break_reported, s') \<and>
            offset s' = offset s \<and> progress s' = progress s \<and> processed s' = processed s \<and>
            visited s' = visited s \<and> error s' = (if error s = 0 then ret else error s) \<and>
            trace s' = trace s @ iteration_events env job len s
                         @ [Ev_error_action ret BLOCK_ERROR_ACTION_REPORT])) \<and>
   (\<forall>fuel rv job' s'.
      stream_run fuel env job = Some (Inr rv, job', s') \<and>
      bdrv_skip_filters_target env \<noteq> base_overlay job \<and> 0 \<le> bdrv_co_getlength env \<and>
      (\<forall>f\<in>set (failures (trace s')). snd f \<noteq> BLOCK_ERROR_ACTION_IGNORE) \<longrightarrow>
        progress s' = offset s' \<and>
        (\<forall>r. (r, BLOCK_ERROR_ACTION_REPORT) \<in> set (failures (trace s')) \<longrightarrow>
           rv = r \<and> last (failures (trace s')) = (r, BLOCK_ERROR_ACTION_REPORT)) \<and>
        ((\<forall>r. (r, BLOCK_ERROR_ACTION_REPORT) \<notin> set (failures (trace s'))) \<longrightarrow> rv = 0))"
proof (intro conjI allI impI)
  assume a: "offset s < len \<and> \<not> job_is_cancelled env (iter s) \<and>
    iteration_ret env len (iter s) (offset s) = Some ret \<and> ret < 0 \<and>
    block_job_error_action env (iter s) (on_error job) True (- ret) = BLOCK_ERROR_ACTION_REPORT"
  then have fw: "stream_iter env job len s
           = handle_result env job (iter s) (fst (fst (classify env len (iter s) (offset s)))) ret
               (s\<lparr>iter := Suc (iter s), n_bytes := chunk_len env len (iter s) (offset s),
                  trace := trace s @ iteration_events env job len s\<rparr>)"
    by (simp add: stream_iter_forward)
  define s' where "s' = snd (stream_iter env job len s)"
  from a have it: "stream_iter env job len s = (Break_reported, s')"
    unfolding s'_def fw by (simp add: handle_result_def Let_def)
  have "offset s' = offset s \<and> progress s' = progress s \<and> processed s' = processed s \<and>
            visited s' = visited s \<and> error s' = (if error s = 0 then ret else error s) \<and>
            trace s' = trace s @ iteration_events env job len s
                         @ [Ev_error_action ret BLOCK_ERROR_ACTION_REPORT]"
    using a unfolding s'_def fw by (simp add: handle_result_def Let_def)
  moreover from a it
  have "stream_loop (Suc k) env job len s = Some (Loop_break Break_reported, s')"
    by simp
  ultimately show "\<exists>s'. stream_loop (Suc k) env job len s
              = Some (Loop_break Break_reported, s') \<and>
            offset s' = offset s \<and> progress s' = progress s \<and> processed s' = processed s \<and>
            visited s' = visited s \<and> error s' = (if error s = 0 then ret else error s) \<and>
            trace s' = trace s @ iteration_events env job len s
                         @ [Ev_error_action ret BLOCK_ERROR_ACTION_REPORT]"
    by blast
next
  fix fuel rv job' s'
  assume a: "stream_run fuel env job = Some (Inr rv, job', s') \<and>
      bdrv_skip_filters_target env \<noteq> base_overlay job \<and> 0 \<le> bdrv_co_getlength env \<and>
      (\<forall>f\<in>set (failures (trace s')). snd f \<noteq> BLOCK_ERROR_ACTION_IGNORE)"
  then have run: "stream_run fuel env job = Some (Inr rv, job', s')"
    and ne: "bdrv_skip_filters_target env \<noteq> base_overlay job"
    and len: "0 \<le> bdrv_co_getlength env"
    and ig: "\<forall>f\<in>set (failures (trace s')). snd f \<noteq> BLOCK_ERROR_ACTION_IGNORE"
    by simp_all
  from stream_run_loop [OF run ne len] obtain tr ex s0 where
    f: "failures tr = []" and
    lp: "stream_loop fuel env job' (bdrv_co_getlength env) (init_state tr) = Some (ex, s0)" and
    r: "rv = error s0" "s' = s0\<lparr>trace := trace s0 @ [Ev_disable_iops_tracker]\<rparr>"
    by auto
  define fs where "fs = failures (trace s0)"
  from r(2) have fs: "failures (trace s') = fs" and po: "progress s' = progress s0"
    "offset s' = offset s0"
    by (simp_all add: failures_append fs_def)
  from progress_is_offset [OF lp] po show "progress s' = offset s'" by simp
  from stream_run_error_inv [OF lp f] have fe: "rv = first_error (trace s0)"
    using r(1) by (simp add: err_inv_def)
  have bl: "\<forall>f\<in>set (butlast fs). snd f = BLOCK_ERROR_ACTION_STOP"
  proof
    fix x assume x: "x \<in> set (butlast fs)"
    with report_only_last [OF lp f] have "snd x \<noteq> BLOCK_ERROR_ACTION_REPORT"
      by (simp add: fs_def)
    moreover from x ig fs have "snd x \<noteq> BLOCK_ERROR_ACTION_IGNORE"
      by (auto dest: in_set_butlastD)
    ultimately show "snd x = BLOCK_ERROR_ACTION_STOP" by (cases "snd x") simp_all
  qed
  then have nb: "filter (\<lambda>f. snd f \<noteq> BLOCK_ERROR_ACTION_STOP) (butlast fs) = []"
    by (simp add: filter_empty_conv)
  {
    fix r assume m: "(r, BLOCK_ERROR_ACTION_REPORT) \<in> set (failures (trace s'))"
    with fs have ne: "fs \<noteq> []" and m': "(r, BLOCK_ERROR_ACTION_REPORT) \<in> set fs" by auto
    from ne have dec: "fs = butlast fs @ [last fs]" by simp
    from m' bl have "(r, BLOCK_ERROR_ACTION_REPORT) \<notin> set (butlast fs)" by auto
    with m' dec have l: "last fs = (r, BLOCK_ERROR_ACTION_REPORT)"
      by (metis Un_iff empty_iff empty_set insert_iff list.simps(15) set_append)
    have "filter (\<lambda>f. snd f \<noteq> BLOCK_ERROR_ACTION_STOP) fs = [(r, BLOCK_ERROR_ACTION_REPORT)]"
      by (subst dec) (simp add: nb l)
    with fe have "rv = r" by (simp add: first_error_def fs_def)
    with l fs show "rv = r" and "last (failures (trace s')) = (r, BLOCK_ERROR_ACTION_REPORT)"
      by simp_all
  }
  assume nr: "\<forall>r. (r, BLOCK_ERROR_ACTION_REPORT) \<notin> set (failures (trace s'))"
  have "snd x = BLOCK_ERROR_ACTION_STOP" if "x \<in> set fs" for x
  proof -
    from that nr fs have "snd x \<noteq> BLOCK_ERROR_ACTION_REPORT"
      by (metis prod.collapse)
    moreover from that ig fs have "snd x \<noteq> BLOCK_ERROR_ACTION_IGNORE" by auto
    ultimately show ?thesis by (cases "snd x") simp_all
  qed
  then have "filter (\<lambda>f. snd f \<noteq> BLOCK_ERROR_ACTION_STOP) fs = []"
    by (simp add: filter_empty_conv)
  with fe show "rv = 0" by (simp add: first_error_def fs_def)
qed

theorem stream_run_report_exits_at_failure_witness:
  "iteration_ret (faulty_env BLOCK_ERROR_ACTION_REPORT) 1048576 0 0 = Some (- 5) \<and>
   (\<exists>s'. stream_loop 1 (faulty_env BLOCK_ERROR_ACTION_REPORT) scenario_job 1048576 (init_state [])
           = Some (Loop_break Break_reported, s') \<and>
         error s' = - 5 \<and> offset s' = 0 \<and> progress s' = 0 \<and> visited s' = []) \<and>
   (\<exists>job' s'. stream_run 2 (faulty_env BLOCK_ERROR_ACTION_REPORT) scenario_job
                = Some (Inr (- 5), job', s') \<and>
              failures (trace s') = [(- 5, BLOCK_ERROR_ACTION_REPORT)] \<and>
              progress s' = offset s')"
proof -
  let ?env = "faulty_env BLOCK_ERROR_ACTION_REPORT"
  let ?S = "snd (snd (the (stream_run 2 ?env scenario_job)))"
  note inst = stream_run_report_exits_at_failure
    [where s = "init_state []" and len = 1048576 and env = ?env and ret = "- 5"
       and job = scenario_job and k = 0]
  have ir: "iteration_ret ?env 1048576 0 0 = Some (- 5)"
    by (simp add: iteration_ret_def classify_def stream_populate_def faulty_env_def
        STREAM_CHUNK_def SIZE_MAX_def uint64_of_def)
  from ir have h1: "offset (init_state []) < 1048576 \<and>
    \<not> job_is_cancelled ?env (iter (init_state [])) \<and>
    iteration_ret ?env 1048576 (iter (init_state [])) (offset (init_state [])) = Some (- 5) \<and>
    (- 5 :: int) < 0 \<and>
    block_job_error_action ?env (iter (init_state [])) (on_error scenario_job) True (- (- 5))
      = BLOCK_ERROR_ACTION_REPORT"
    by (simp add: init_state_def faulty_env_def)
  from inst [THEN conjunct1, rule_format, OF h1]
  have p1: "\<exists>s'. stream_loop 1 ?env scenario_job 1048576 (init_state [])
           = Some (Loop_break Break_reported, s') \<and>
         error s' = - 5 \<and> offset s' = 0 \<and> progress s' = 0 \<and> visited s' = []"
    by (auto simp: init_state_def)
  have run: "stream_run 2 ?env scenario_job = Some (Inr (- 5), scenario_job, ?S)"
    by (simp add: faulty_report_run)
  have f: "failures (trace ?S) = [(- 5, BLOCK_ERROR_ACTION_REPORT)]"
    by (simp add: faulty_report_run)
  have h2: "stream_run 2 ?env scenario_job = Some (Inr (- 5), scenario_job, ?S) \<and>
      bdrv_skip_filters_target ?env \<noteq> base_overlay scenario_job \<and>
      0 \<le> bdrv_co_getlength ?env \<and>
      (\<forall>f\<in>set (failures (trace ?S)). snd f \<noteq> BLOCK_ERROR_ACTION_IGNORE)"
    using run by (simp add: f) (simp add: faulty_env_def scenario_job_def)
  from inst [THEN conjunct2, rule_format, OF h2]
  have "progress ?S = offset ?S" by simp
  with ir p1 run f show ?thesis by blast
qed

subsection \<open>The ignore action\<close>





subsection \<open>Calibration of the adaptive threshold\<close>

text \<open>
  Claim C5, as stated, fails: the code calibrates whenever the tracker reports enabled
  and the supplied threshold is below 1; it has no lower bound. With adaptive mode on and
  a supplied threshold of \<open>-1\<close>, outside \<open>[0, 1)\<close>, the three sleeps and samples are made
  and the threshold becomes \<open>-20\<close>.
\<close>

theorem calibration_negative_threshold_counterexample:
  "adaptive_stream negative_job \<and> adaptive_threshold negative_job = - 1 \<and>
   stream_calibrate sampling_env negative_job [] =
     Inr (- 20,
          [Ev_enable_iops_tracker,
           Ev_job_sleep_ns 5000000000, Ev_get_rwthroughput 0,
           Ev_job_sleep_ns 5000000000, Ev_get_rwthroughput 1,
           Ev_job_sleep_ns 5000000000, Ev_get_rwthroughput 2])"
  by (simp add: stream_calibrate_def calibration_loop_three negative_job_def sampling_env_def
      scenario_job_def scenario_env_def three_def)

text \<open>
  Claim C5, amended. Calibration runs only when adaptive mode is enabled and the supplied
  threshold is below 1, negative values included. It makes exactly three throughput
  samples, each preceded by a call of \<^verbatim>\<open>job_sleep_ns\<close>, the cancellable sleep of the job
  host, for 5 seconds, and the threshold becomes the arithmetic mean of the three samples,
  each multiplied by the supplied value: their sum, added up from zero, divided by 3. A
  supplied threshold that is not below 1, so every one that is at least 1, skips the
  calibration: no sleep and no sample is made and the supplied value is the threshold.
  The value so determined is the threshold of the job that \<^verbatim>\<open>stream_run\<close> runs the loop
  with. All this is for a tracker that is the job's own (\<open>tracker_of_job\<close>). In general
  the code calibrates when the tracker reports enabled and the threshold is below 1, and
  where the tracker reports enabled without the job having started it and the threshold is
  not below 1, the log of the threshold reads the pointer \<^verbatim>\<open>ptm\<close> that nothing has
  assigned.
\<close>

theorem stream_calibrate_result:
  fixes env :: "('d::{zero,one,plus,times,inverse,ord}) stream_env"
  shows
  "(tracker_of_job env job \<longrightarrow>
      stream_calibrate env job tr =
        (if adaptive_stream job \<and> is_iops_tracker_enabled env True \<and> adaptive_threshold job < 1
         then Inr ((0 + iops_tracker_get_rwthroughput env 0 * adaptive_threshold job
                      + iops_tracker_get_rwthroughput env 1 * adaptive_threshold job
                      + iops_tracker_get_rwthroughput env 2 * adaptive_threshold job) / three,
                   tr @ [Ev_enable_iops_tracker,
                         Ev_job_sleep_ns 5000000000, Ev_get_rwthroughput 0,
                         Ev_job_sleep_ns 5000000000, Ev_get_rwthroughput 1,
                         Ev_job_sleep_ns 5000000000, Ev_get_rwthroughput 2])
         else Inr (adaptive_threshold job,
                   if adaptive_stream job then tr @ [Ev_enable_iops_tracker] else tr))) \<and>
   stream_calibrate env job tr =
     (if is_iops_tracker_enabled env (adaptive_stream job) \<and> adaptive_threshold job < 1
      then Inr ((0 + iops_tracker_get_rwthroughput env 0 * adaptive_threshold job
                   + iops_tracker_get_rwthroughput env 1 * adaptive_threshold job
                   + iops_tracker_get_rwthroughput env 2 * adaptive_threshold job) / three,
                (if adaptive_stream job then tr @ [Ev_enable_iops_tracker] else tr)
                @ [Ev_job_sleep_ns 5000000000, Ev_get_rwthroughput 0,
                   Ev_job_sleep_ns 5000000000, Ev_get_rwthroughput 1,
                   Ev_job_sleep_ns 5000000000, Ev_get_rwthroughput 2])
      else if is_iops_tracker_enabled env (adaptive_stream job) \<and>
              \<not> (adaptive_stream job \<and> enable_iops_tracker env)
      then Inl Uninitialised_read
      else Inr (adaptive_threshold job,
                if adaptive_stream job then tr @ [Ev_enable_iops_tracker] else tr)) \<and>
   (\<forall>fuel res job' s threshold tr'.
      stream_run fuel env job = Some (res, job', s) \<and>
      bdrv_skip_filters_target env \<noteq> base_overlay job \<and> 0 \<le> bdrv_co_getlength env \<and>
      stream_calibrate env job [Ev_progress_set_remaining (bdrv_co_getlength env)]
        = Inr (threshold, tr') \<longrightarrow>
        adaptive_threshold job' = threshold)"
proof (intro conjI allI impI)
  show gen: "stream_calibrate env job tr =
     (if is_iops_tracker_enabled env (adaptive_stream job) \<and> adaptive_threshold job < 1
      then Inr ((0 + iops_tracker_get_rwthroughput env 0 * adaptive_threshold job
                   + iops_tracker_get_rwthroughput env 1 * adaptive_threshold job
                   + iops_tracker_get_rwthroughput env 2 * adaptive_threshold job) / three,
                (if adaptive_stream job then tr @ [Ev_enable_iops_tracker] else tr)
                @ [Ev_job_sleep_ns 5000000000, Ev_get_rwthroughput 0,
                   Ev_job_sleep_ns 5000000000, Ev_get_rwthroughput 1,
                   Ev_job_sleep_ns 5000000000, Ev_get_rwthroughput 2])
      else if is_iops_tracker_enabled env (adaptive_stream job) \<and>
              \<not> (adaptive_stream job \<and> enable_iops_tracker env)
      then Inl Uninitialised_read
      else Inr (adaptive_threshold job,
                if adaptive_stream job then tr @ [Ev_enable_iops_tracker] else tr))"
    by (cases "adaptive_stream job")
      (simp_all add: stream_calibrate_def Let_def calibration_loop_three numeral_2_eq_2)
  assume h: "tracker_of_job env job"
  show "stream_calibrate env job tr =
        (if adaptive_stream job \<and> is_iops_tracker_enabled env True \<and> adaptive_threshold job < 1
         then Inr ((0 + iops_tracker_get_rwthroughput env 0 * adaptive_threshold job
                      + iops_tracker_get_rwthroughput env 1 * adaptive_threshold job
                      + iops_tracker_get_rwthroughput env 2 * adaptive_threshold job) / three,
                   tr @ [Ev_enable_iops_tracker,
                         Ev_job_sleep_ns 5000000000, Ev_get_rwthroughput 0,
                         Ev_job_sleep_ns 5000000000, Ev_get_rwthroughput 1,
                         Ev_job_sleep_ns 5000000000, Ev_get_rwthroughput 2])
         else Inr (adaptive_threshold job,
                   if adaptive_stream job then tr @ [Ev_enable_iops_tracker] else tr))"
  proof (cases "adaptive_stream job")
    case True
    with h show ?thesis unfolding gen by (auto simp: tracker_of_job_def)
  next
    case False
    with h show ?thesis unfolding gen by (auto simp: tracker_of_job_def)
  qed
next
  fix fuel res job' s threshold tr'
  assume a: "stream_run fuel env job = Some (res, job', s) \<and>
      bdrv_skip_filters_target env \<noteq> base_overlay job \<and> 0 \<le> bdrv_co_getlength env \<and>
      stream_calibrate env job [Ev_progress_set_remaining (bdrv_co_getlength env)]
        = Inr (threshold, tr')"
  then have "job' = job\<lparr>adaptive_threshold := threshold\<rparr>"
    by (auto simp: stream_run_def Let_def split: option.splits loop_exit.splits outcome.splits)
  then show "adaptive_threshold job' = threshold" by simp
qed


theorem stream_calibrate_result_witness:
  "tracker_of_job sampling_env (negative_job\<lparr>adaptive_threshold := 1 / 2\<rparr>) \<and>
   stream_calibrate sampling_env (negative_job\<lparr>adaptive_threshold := 1 / 2\<rparr>) [] =
     Inr (10,
          [Ev_enable_iops_tracker,
           Ev_job_sleep_ns 5000000000, Ev_get_rwthroughput 0,
           Ev_job_sleep_ns 5000000000, Ev_get_rwthroughput 1,
           Ev_job_sleep_ns 5000000000, Ev_get_rwthroughput 2]) \<and>
   tracker_of_job sampling_env (negative_job\<lparr>adaptive_threshold := 2\<rparr>) \<and>
   stream_calibrate sampling_env (negative_job\<lparr>adaptive_threshold := 2\<rparr>) [] =
     Inr (2, [Ev_enable_iops_tracker]) \<and>
   tracker_of_job sampling_env (negative_job\<lparr>adaptive_stream := False\<rparr>) \<and>
   stream_calibrate sampling_env (negative_job\<lparr>adaptive_stream := False\<rparr>) [] = Inr (- 1, []) \<and>
   \<not> tracker_of_job (sampling_env\<lparr>is_iops_tracker_enabled := (\<lambda>called. True)\<rparr>)
       (scenario_job\<lparr>adaptive_threshold := 2\<rparr>) \<and>
   stream_calibrate (sampling_env\<lparr>is_iops_tracker_enabled := (\<lambda>called. True)\<rparr>)
     (scenario_job\<lparr>adaptive_threshold := 2\<rparr>) [] = Inl Uninitialised_read \<and>
   (\<exists>res job' s.
      stream_run (nat 2097152) sampling_env (negative_job\<lparr>adaptive_threshold := 1 / 2\<rparr>)
        = Some (res, job', s) \<and>
      adaptive_threshold job' = 10)"
proof -
  let ?half = "negative_job\<lparr>adaptive_threshold := 1 / 2\<rparr>"
  let ?two = "negative_job\<lparr>adaptive_threshold := 2\<rparr>"
  let ?off = "negative_job\<lparr>adaptive_stream := False\<rparr>"
  let ?env = "sampling_env\<lparr>is_iops_tracker_enabled := (\<lambda>called. True)\<rparr>"
  have gl: "bdrv_co_getlength sampling_env = 2097152"
    by (simp add: sampling_env_def scenario_env_def)
  have h1: "tracker_of_job sampling_env ?half"
    by (simp add: tracker_of_job_def negative_job_def sampling_env_def scenario_env_def)
  have h2: "tracker_of_job sampling_env ?two"
    by (simp add: tracker_of_job_def negative_job_def sampling_env_def scenario_env_def)
  have h3: "tracker_of_job sampling_env ?off"
    by (simp add: tracker_of_job_def negative_job_def sampling_env_def scenario_env_def)
  have h4: "\<not> tracker_of_job ?env (scenario_job\<lparr>adaptive_threshold := 2\<rparr>)"
    by (simp add: tracker_of_job_def scenario_job_def)
  have p1: "stream_calibrate sampling_env ?half [] =
     Inr (10,
          [Ev_enable_iops_tracker,
           Ev_job_sleep_ns 5000000000, Ev_get_rwthroughput 0,
           Ev_job_sleep_ns 5000000000, Ev_get_rwthroughput 1,
           Ev_job_sleep_ns 5000000000, Ev_get_rwthroughput 2])"
    using stream_calibrate_result [of sampling_env ?half "[]", THEN conjunct1, rule_format, OF h1]
    by (simp add: negative_job_def sampling_env_def scenario_job_def scenario_env_def three_def)
  have p2: "stream_calibrate sampling_env ?two [] = Inr (2, [Ev_enable_iops_tracker])"
    using stream_calibrate_result [of sampling_env ?two "[]", THEN conjunct1, rule_format, OF h2]
    by (simp add: negative_job_def sampling_env_def scenario_job_def scenario_env_def)
  have p3: "stream_calibrate sampling_env ?off [] = Inr (- 1, [])"
    using stream_calibrate_result [of sampling_env ?off "[]", THEN conjunct1, rule_format, OF h3]
    by (simp add: negative_job_def sampling_env_def scenario_job_def scenario_env_def)
  have p4: "stream_calibrate ?env (scenario_job\<lparr>adaptive_threshold := 2\<rparr>) []
      = Inl Uninitialised_read"
    using stream_calibrate_result
      [of ?env "scenario_job\<lparr>adaptive_threshold := 2\<rparr>" "[]", THEN conjunct2, THEN conjunct1]
    by (simp add: scenario_job_def)
  have con: "alloc_contract sampling_env (bdrv_co_getlength sampling_env)"
    by (simp add: alloc_contract_def sampling_env_def scenario_env_def STREAM_CHUNK_def)
  have mp: "makes_progress sampling_env ?half (bdrv_co_getlength sampling_env)"
    by (simp add: makes_progress_def chunk_len_def classify_def sampling_env_def
        scenario_env_def STREAM_CHUNK_def)
  from stream_run_terminates [OF con mp] obtain res job' s where
    run: "stream_run (nat 2097152) sampling_env ?half = Some (res, job', s)"
    by (auto simp: gl)
  have cal: "stream_calibrate sampling_env ?half
      [Ev_progress_set_remaining (bdrv_co_getlength sampling_env)]
      = Inr (10,
          [Ev_progress_set_remaining 2097152, Ev_enable_iops_tracker,
           Ev_job_sleep_ns 5000000000, Ev_get_rwthroughput 0,
           Ev_job_sleep_ns 5000000000, Ev_get_rwthroughput 1,
           Ev_job_sleep_ns 5000000000, Ev_get_rwthroughput 2])"
    using stream_calibrate_result
      [of sampling_env ?half "[Ev_progress_set_remaining (bdrv_co_getlength sampling_env)]",
       THEN conjunct1, rule_format, OF h1]
    by (simp add: negative_job_def sampling_env_def scenario_job_def scenario_env_def three_def)
  have h: "stream_run (nat 2097152) sampling_env ?half = Some (res, job', s) \<and>
      bdrv_skip_filters_target sampling_env \<noteq> base_overlay ?half \<and>
      0 \<le> bdrv_co_getlength sampling_env \<and>
      stream_calibrate sampling_env ?half
        [Ev_progress_set_remaining (bdrv_co_getlength sampling_env)]
      = Inr (10,
          [Ev_progress_set_remaining 2097152, Ev_enable_iops_tracker,
           Ev_job_sleep_ns 5000000000, Ev_get_rwthroughput 0,
           Ev_job_sleep_ns 5000000000, Ev_get_rwthroughput 1,
           Ev_job_sleep_ns 5000000000, Ev_get_rwthroughput 2])"
    using run cal
    by (simp add: negative_job_def sampling_env_def scenario_job_def scenario_env_def)
  from stream_calibrate_result
    [of sampling_env ?half "[]", THEN conjunct2, THEN conjunct2, rule_format, OF h]
  have "adaptive_threshold job' = 10" .
  with h1 h2 h3 h4 p1 p2 p3 p4 run show ?thesis by blast
qed

subsection \<open>The order of the steps of an iteration\<close>

text \<open>
  Claim C6. Every iteration first calls the rate limiter's sleep, whatever the limit, and
  then checks for cancellation. When cancellation is requested the iteration ends there
  and the loop is left: no query and no copy is made, and offset, error accumulator,
  published progress, rate-limiter account and the chunks visited are as before. Otherwise
  the adaptive pause follows exactly when adaptive mode is enabled, then the
  classification of the chunk, which starts with the allocation query at the current
  offset for \<^verbatim>\<open>STREAM_CHUNK\<close> bytes, and only then the copy, the error action and the
  publication.
\<close>

theorem stream_iter_order:
  "(job_is_cancelled env (iter s) \<longrightarrow>
      stream_iter env job len s =
        (Break_cancelled,
         s\<lparr>iter := Suc (iter s),
           trace := trace s @ [Ev_ratelimit_sleep, Ev_is_cancelled True]\<rparr>) \<and>
      (offset s < len \<longrightarrow>
         stream_loop (Suc k) env job len s =
           Some (Loop_break Break_cancelled,
                 s\<lparr>iter := Suc (iter s),
                   trace := trace s @ [Ev_ratelimit_sleep, Ev_is_cancelled True]\<rparr>))) \<and>
   (\<not> job_is_cancelled env (iter s) \<longrightarrow>
      (\<exists>queries rest.
         snd (classify env len (iter s) (offset s))
           = Ev_is_allocated (offset s) STREAM_CHUNK # queries \<and>
         trace (snd (stream_iter env job len s)) =
           trace s @ [Ev_ratelimit_sleep, Ev_is_cancelled False]
           @ (if adaptive_stream job
              then [Ev_adaptive_pause (adaptive_threshold job) (pause_time job)] else [])
           @ snd (classify env len (iter s) (offset s)) @ rest \<and>
         (\<forall>e\<in>set rest. late_event e)))"
proof (intro conjI impI)
  assume c: "job_is_cancelled env (iter s)"
  then show it: "stream_iter env job len s =
        (Break_cancelled,
         s\<lparr>iter := Suc (iter s),
           trace := trace s @ [Ev_ratelimit_sleep, Ev_is_cancelled True]\<rparr>)"
    by (simp add: stream_iter_def Let_def)
  assume "offset s < len"
  with it show "stream_loop (Suc k) env job len s =
           Some (Loop_break Break_cancelled,
                 s\<lparr>iter := Suc (iter s),
                   trace := trace s @ [Ev_ratelimit_sleep, Ev_is_cancelled True]\<rparr>)"
    by simp
next
  assume nc: "\<not> job_is_cancelled env (iter s)"
  obtain copy r n evs where cl: "classify env len (iter s) (offset s) = ((copy, r, n), evs)"
    by (metis prod_cases3 surj_pair)
  from classify_first [of env len "iter s" "offset s"] cl obtain queries where
    q: "evs = Ev_is_allocated (offset s) STREAM_CHUNK # queries"
    by auto
  let ?pre = "[Ev_ratelimit_sleep, Ev_is_cancelled False]
           @ (if adaptive_stream job
              then [Ev_adaptive_pause (adaptive_threshold job) (pause_time job)] else [])
           @ evs"
  have "\<exists>rest. trace (snd (stream_iter env job len s)) = trace s @ ?pre @ rest \<and>
          (\<forall>e\<in>set rest. late_event e)"
  proof (cases copy)
    case False
    obtain out s' where h: "handle_result env job (iter s) False r
        (s\<lparr>iter := Suc (iter s), n_bytes := n, trace := trace s @ ?pre\<rparr>) = (out, s')"
      by (metis surj_pair)
    from handle_result_late [OF h] obtain rest where
      "trace s' = trace s @ ?pre @ rest" "\<forall>e\<in>set rest. late_event e"
      by auto
    moreover from nc cl False h have "stream_iter env job len s = (out, s')"
      by (simp add: stream_iter_def Let_def)
    ultimately show ?thesis by auto
  next
    case True
    show ?thesis
    proof (cases "stream_populate env (iter s) (offset s) (uint64_of n)")
      case (Inl a)
      with nc cl True have "trace (snd (stream_iter env job len s)) = trace s @ ?pre @ []"
        by (simp add: stream_iter_def Let_def)
      then show ?thesis by (intro exI [of _ "[]"]) simp
    next
      case (Inr ret')
      obtain out s' where h: "handle_result env job (iter s) True ret'
          (s\<lparr>iter := Suc (iter s), n_bytes := n,
             trace := trace s @ ?pre @ [Ev_populate (offset s) (uint64_of n)]\<rparr>) = (out, s')"
        by (metis surj_pair)
      from handle_result_late [OF h] obtain rest where
        r: "trace s' = trace s @ ?pre @ Ev_populate (offset s) (uint64_of n) # rest"
          "\<forall>e\<in>set rest. late_event e"
        by auto
      from nc cl True Inr h have "stream_iter env job len s = (out, s')"
        by (simp add: stream_iter_def Let_def)
      with r show ?thesis
        by (intro exI [of _ "Ev_populate (offset s) (uint64_of n) # rest"]) simp
    qed
  qed
  with cl q show "\<exists>queries rest.
         snd (classify env len (iter s) (offset s))
           = Ev_is_allocated (offset s) STREAM_CHUNK # queries \<and>
         trace (snd (stream_iter env job len s)) =
           trace s @ [Ev_ratelimit_sleep, Ev_is_cancelled False]
           @ (if adaptive_stream job
              then [Ev_adaptive_pause (adaptive_threshold job) (pause_time job)] else [])
           @ snd (classify env len (iter s) (offset s)) @ rest \<and>
         (\<forall>e\<in>set rest. late_event e)"
    by auto
qed

theorem stream_iter_order_witness:
  "stream_loop 1 (scenario_env\<lparr>job_is_cancelled := (\<lambda>i. True)\<rparr>) scenario_job 2097152
     (init_state [])
   = Some (Loop_break Break_cancelled,
           \<lparr>offset = 0, n_bytes = 0, error = 0, iter = 1, progress = 0, processed = 0,
            visited = [], trace = [Ev_ratelimit_sleep, Ev_is_cancelled True]\<rparr>) \<and>
   (\<exists>rest. trace (snd (stream_iter scenario_env (scenario_job\<lparr>adaptive_stream := True\<rparr>)
                        2097152 (init_state [])))
           = [Ev_ratelimit_sleep, Ev_is_cancelled False, Ev_adaptive_pause 1 0,
              Ev_is_allocated 0 524288, Ev_is_allocated_above 0 524288] @ rest \<and>
          rest = [Ev_progress_update 524288])"
proof -
  let ?cenv = "scenario_env\<lparr>job_is_cancelled := (\<lambda>i. True)\<rparr>"
  let ?ajob = "scenario_job\<lparr>adaptive_stream := True\<rparr>"
  have c: "job_is_cancelled ?cenv (iter (init_state []))" by simp
  have l: "offset (init_state []) < 2097152" by (simp add: init_state_def)
  from stream_iter_order [where env = ?cenv and s = "init_state []" and job = scenario_job
      and len = 2097152 and k = 0, THEN conjunct1, rule_format, OF c, THEN conjunct2,
      rule_format, OF l]
  have p1: "stream_loop 1 ?cenv scenario_job 2097152 (init_state [])
   = Some (Loop_break Break_cancelled,
           \<lparr>offset = 0, n_bytes = 0, error = 0, iter = 1, progress = 0, processed = 0,
            visited = [], trace = [Ev_ratelimit_sleep, Ev_is_cancelled True]\<rparr>)"
    by (simp add: init_state_def)
  have nc: "\<not> job_is_cancelled scenario_env (iter (init_state []))"
    by (simp add: scenario_env_def)
  have cl: "snd (classify scenario_env 2097152 0 0)
      = [Ev_is_allocated 0 524288, Ev_is_allocated_above 0 524288]"
    by (simp add: classify_def scenario_env_def STREAM_CHUNK_def)
  from stream_iter_order [where env = scenario_env and s = "init_state []" and job = ?ajob
      and len = 2097152 and k = 0, THEN conjunct2, rule_format, OF nc]
  obtain rest where
    "trace (snd (stream_iter scenario_env ?ajob 2097152 (init_state [])))
       = [Ev_ratelimit_sleep, Ev_is_cancelled False, Ev_adaptive_pause 1 0,
          Ev_is_allocated 0 524288, Ev_is_allocated_above 0 524288] @ rest"
    by (auto simp: init_state_def cl scenario_job_def)
  moreover have "trace (snd (stream_iter scenario_env ?ajob 2097152 (init_state [])))
       = [Ev_ratelimit_sleep, Ev_is_cancelled False, Ev_adaptive_pause 1 0,
          Ev_is_allocated 0 524288, Ev_is_allocated_above 0 524288, Ev_progress_update 524288]"
    by (simp add: run_defs scenario_env_def scenario_job_def)
  ultimately have p2: "\<exists>rest. trace (snd (stream_iter scenario_env ?ajob 2097152 (init_state [])))
           = [Ev_ratelimit_sleep, Ev_is_cancelled False, Ev_adaptive_pause 1 0,
              Ev_is_allocated 0 524288, Ev_is_allocated_above 0 524288] @ rest \<and>
          rest = [Ev_progress_update 524288]"
    by simp
  from p1 p2 show ?thesis by blast
qed

subsection \<open>The rewrite of the backing reference\<close>

text \<open>
  Claim C7, as stated, fails in two places. The new backing node is not the node above
  the base (\<^verbatim>\<open>s->above_base\<close>) but the node below it,
  \<^verbatim>\<open>bdrv_filter_or_cow_bs(s->above_base)\<close>: in the chain \<open>0 \<rightarrow> 1 \<rightarrow> 2\<close> with node 1 above
  the base, the top image gets node 2 as its backing node. And a backing-file string
  given by the caller is used only when there is such a node: when the whole chain is
  streamed, no identifier and no format are written although a string was supplied.
\<close>

theorem stream_prepare_backing_counterexample:
  "above_base scenario_job = Some 1 \<and>
   snd (snd (stream_prepare overlay_chain scenario_job)) =
     [Pe_cor_filter_drop (Some 3), Pe_drained_begin (Some 0), Pe_ref 1,
      Pe_drained_begin (Some 1), Pe_set_backing_hd (Some 0) (Some 2),
      Pe_change_backing_file (Some 0) (Some ''base.img'') (Some ''qcow2''),
      Pe_drained_end (Some 1), Pe_unref 1, Pe_drained_end (Some 0)] \<and>
   snd (snd (stream_prepare whole_chain
               (scenario_job\<lparr>backing_file_str := Some ''new.img''\<rparr>))) =
     [Pe_cor_filter_drop (Some 3), Pe_drained_begin (Some 0), Pe_ref 1,
      Pe_drained_begin (Some 1), Pe_set_backing_hd (Some 0) None,
      Pe_change_backing_file (Some 0) None None,
      Pe_drained_end (Some 1), Pe_unref 1, Pe_drained_end (Some 0)]"
  by (simp add: chain_prepare whole_chain_prepare) (simp add: scenario_job_def)

text \<open>
  Claim C7, amended. \<^verbatim>\<open>stream_prepare\<close> first removes the interposing filter and clears
  the job's pointer to it. If the top image (the target with filters skipped) has no
  copy-on-write child, nothing else but the drain is done and \<open>0\<close> is returned. Otherwise
  the backing node of the top image is set to the node directly below the node above the
  base (its filter or copy-on-write child: the base, or nothing when the whole chain was
  streamed) and the backing reference written into the image is rewritten: when that node,
  filters skipped, exists, the identifier is the caller-supplied backing-file string if one
  was given and the node's filename otherwise, and the format is \<open>raw\<close> when
  \<^verbatim>\<open>backing_mask_protocol\<close> is set and the node's driver has a protocol name, the driver's
  format name otherwise and none when the node has no driver; when there is no such node,
  neither identifier nor format is written. The value returned is \<open>-EPERM\<close> when setting
  the backing node failed and the result of the rewrite otherwise, so a failure of either
  makes \<^verbatim>\<open>stream_prepare\<close> return an error; the copy loop's result is not an input.
\<close>

theorem stream_prepare_rewrites_backing:
  "stream_prepare g s = (ret, s', evs) \<longrightarrow>
     (let top = bdrv_skip_filters g (target_bs s);
          base = bdrv_filter_or_cow_bs g (above_base s);
          ub = bdrv_skip_filters g base;
          base_id = base_id_of g s ub;
          base_fmt = base_fmt_of g s ub
      in s' = s\<lparr>cor_filter_bs := None\<rparr> \<and>
         (bdrv_cow_bs g top = None \<longrightarrow>
            ret = 0 \<and>
            evs = [Pe_cor_filter_drop (cor_filter_bs s), Pe_drained_begin top,
                   Pe_drained_end top]) \<and>
         (\<forall>c. bdrv_cow_bs g top = Some c \<longrightarrow>
            evs = [Pe_cor_filter_drop (cor_filter_bs s), Pe_drained_begin top, Pe_ref c,
                   Pe_drained_begin (Some c), Pe_set_backing_hd top base,
                   Pe_change_backing_file top base_id base_fmt]
                  @ (if bdrv_set_backing_hd_drained g top base then [Pe_error_report] else [])
                  @ [Pe_drained_end (Some c), Pe_unref c, Pe_drained_end top] \<and>
            ret = (if bdrv_set_backing_hd_drained g top base then - EPERM
                   else bdrv_change_backing_file g top base_id base_fmt) \<and>
            (bdrv_set_backing_hd_drained g top base \<or>
             bdrv_change_backing_file g top base_id base_fmt < 0 \<longrightarrow> ret < 0)) \<and>
         (ub = None \<longrightarrow> base_id = None \<and> base_fmt = None) \<and>
         (\<forall>u. ub = Some u \<longrightarrow>
            base_id = Some (case backing_file_str s of
                              Some str \<Rightarrow> str | None \<Rightarrow> filename (bds g u)) \<and>
            (drv (bds g u) = None \<longrightarrow> base_fmt = None) \<and>
            (\<forall>d. drv (bds g u) = Some d \<longrightarrow>
               base_fmt = Some (if backing_mask_protocol s \<and> protocol_name d \<noteq> None
                                then ''raw'' else format_name d))))"
  by (auto simp: stream_prepare_def Let_def base_id_of_def base_fmt_of_def EPERM_def
           split: option.splits if_splits)

theorem stream_prepare_rewrites_backing_witness:
  "fst (stream_prepare protocol_graph masking_job) = - 5 \<and>
   bdrv_cow_bs protocol_graph (bdrv_skip_filters protocol_graph (target_bs masking_job)) = Some 1 \<and>
   bdrv_filter_or_cow_bs protocol_graph (above_base masking_job) = Some 2 \<and>
   base_id_of protocol_graph masking_job (Some 2) = Some ''new.img'' \<and>
   base_fmt_of protocol_graph masking_job (Some 2) = Some ''raw'' \<and>
   cor_filter_bs (fst (snd (stream_prepare protocol_graph masking_job))) = None \<and>
   Pe_set_backing_hd (Some 0) (Some 2) \<in> set (snd (snd (stream_prepare protocol_graph masking_job)))"
proof -
  have g: "bdrv_skip_filters protocol_graph (target_bs masking_job) = Some 0"
    "bdrv_cow_bs protocol_graph (Some 0) = Some 1"
    "bdrv_filter_or_cow_bs protocol_graph (above_base masking_job) = Some 2"
    "bdrv_skip_filters protocol_graph (Some 2) = Some 2"
    "drv (bds protocol_graph 2)
       = Some \<lparr>format_name = ''nbd'', protocol_name = Some ''nbd'', is_filter = False\<rparr>"
    "backing_file_str masking_job = Some ''new.img''" "backing_mask_protocol masking_job"
    by (simp_all add: protocol_graph_def overlay_chain_def masking_job_def scenario_job_def)
  have ub: "bdrv_skip_filters protocol_graph
              (bdrv_filter_or_cow_bs protocol_graph (above_base masking_job)) = Some 2"
    by (simp add: g)
  note inst = stream_prepare_rewrites_backing [THEN mp, OF protocol_prepare, unfolded Let_def]
  note last = inst [THEN conjunct2, THEN conjunct2, THEN conjunct2, THEN conjunct2,
      rule_format, OF ub]
  from last [THEN conjunct1] have id: "base_id_of protocol_graph masking_job (Some 2)
      = Some ''new.img''"
    unfolding ub by (simp add: g)
  from last [THEN conjunct2, THEN conjunct2, rule_format, OF g(5)]
  have fmt: "base_fmt_of protocol_graph masking_job (Some 2) = Some ''raw''"
    unfolding ub by (simp add: g)
  show ?thesis
    using g(1,2,3) id fmt by (simp add: protocol_prepare)
qed

subsection \<open>An update between the sample and the reset is lost\<close>

text \<open>
  Claim C8 asks that a sample-and-reset be one indivisible step with respect to the
  updates, so that the operation counts of successive samples add up to what was
  recorded. \<^verbatim>\<open>iops_tracker_get_iops\<close> releases the mutex before it calls
  \<^verbatim>\<open>iops_tracker_init\<close>, so an update can run between the two. In the schedule below 3
  operations are recorded, a first sample reads them, 5 more are recorded after the unlock
  and before the reset, and a second sample follows: the samples count 3 and 0 operations,
  8 were recorded, and the tracker holds none. When the same update runs after the reset,
  the samples count 3 and 5.
\<close>

theorem sample_and_reset_not_atomic:
  "run_schedule
     [Step_update 3, Step_get_iops_locked 1000, Step_update 5, Step_get_iops_init 1001,
      Step_get_iops_locked 2000, Step_get_iops_init 2001]
     (iops_tracker_init \<lparr>operations = 0, start_time_ns = 0\<rparr> 0, [])
   = (\<lparr>operations = 0, start_time_ns = 2001\<rparr>, [(3, 1000), (0, 999)]) \<and>
   recorded
     [Step_update 3, Step_get_iops_locked 1000, Step_update 5, Step_get_iops_init 1001,
      Step_get_iops_locked 2000, Step_get_iops_init 2001] = 8 \<and>
   run_schedule
     [Step_update 3, Step_get_iops_locked 1000, Step_get_iops_init 1001, Step_update 5,
      Step_get_iops_locked 2000, Step_get_iops_init 2001]
     (iops_tracker_init \<lparr>operations = 0, start_time_ns = 0\<rparr> 0, [])
   = (\<lparr>operations = 0, start_time_ns = 2001\<rparr>, [(3, 1000), (5, 999)])"
  by (simp add: iops_tracker_init_def iops_tracker_update_def get_iops_locked_def)

subsection \<open>The stop action\<close>

text \<open>
  Claim C9. In an iteration whose allocation query or copy fails (\<open>ret < 0\<close> at the test
  after the copy) and whose error action is \<open>stop\<close>, \<open>n\<close> is set to zero and the loop goes
  on at the same offset; the error accumulator, the published progress and the rate
  limiter's account keep their values. A run of \<^verbatim>\<open>stream_run\<close> that reaches its end and
  whose failures were all answered by \<open>stop\<close> returns \<open>0\<close>, with nothing in the accumulator.
\<close>

theorem stream_run_stop_retries_same_offset:
  fixes env :: "('d::{zero,one,plus,times,inverse,ord}) stream_env"
  shows
  "(offset s < len \<and> \<not> job_is_cancelled env (iter s) \<and>
    iteration_ret env len (iter s) (offset s) = Some ret \<and> ret < 0 \<and>
    block_job_error_action env (iter s) (on_error job) True (- ret) = BLOCK_ERROR_ACTION_STOP \<longrightarrow>
      (\<exists>s'. stream_iter env job len s = (Continue, s') \<and>
            n_bytes s' = 0 \<and> offset s' = offset s \<and> error s' = error s \<and>
            progress s' = progress s \<and> processed s' = processed s \<and>
            iter s' = Suc (iter s) \<and>
            stream_loop (Suc k) env job len s = stream_loop k env job len s')) \<and>
   (\<forall>fuel rv job' s'.
      stream_run fuel env job = Some (Inr rv, job', s') \<and> 0 \<le> bdrv_co_getlength env \<and>
      (\<forall>f\<in>set (failures (trace s')). snd f = BLOCK_ERROR_ACTION_STOP) \<longrightarrow>
        rv = 0 \<and> error s' = 0)"
proof (intro conjI allI impI)
  assume a: "offset s < len \<and> \<not> job_is_cancelled env (iter s) \<and>
    iteration_ret env len (iter s) (offset s) = Some ret \<and> ret < 0 \<and>
    block_job_error_action env (iter s) (on_error job) True (- ret) = BLOCK_ERROR_ACTION_STOP"
  then have fw: "stream_iter env job len s
           = handle_result env job (iter s) (fst (fst (classify env len (iter s) (offset s)))) ret
               (s\<lparr>iter := Suc (iter s), n_bytes := chunk_len env len (iter s) (offset s),
                  trace := trace s @ iteration_events env job len s\<rparr>)"
    by (simp add: stream_iter_forward)
  define s' where "s' = snd (stream_iter env job len s)"
  from a have it: "stream_iter env job len s = (Continue, s')"
    unfolding s'_def fw by (simp add: handle_result_def Let_def)
  have "n_bytes s' = 0 \<and> offset s' = offset s \<and> error s' = error s \<and>
            progress s' = progress s \<and> processed s' = processed s \<and>
            iter s' = Suc (iter s)"
    using a unfolding s'_def fw by (simp add: handle_result_def advance_def Let_def)
  moreover from a it have "stream_loop (Suc k) env job len s = stream_loop k env job len s'"
    by simp
  ultimately show "\<exists>s'. stream_iter env job len s = (Continue, s') \<and>
            n_bytes s' = 0 \<and> offset s' = offset s \<and> error s' = error s \<and>
            progress s' = progress s \<and> processed s' = processed s \<and>
            iter s' = Suc (iter s) \<and>
            stream_loop (Suc k) env job len s = stream_loop k env job len s'"
    using it by blast
next
  fix fuel rv job' s'
  assume a: "stream_run fuel env job = Some (Inr rv, job', s') \<and> 0 \<le> bdrv_co_getlength env \<and>
      (\<forall>f\<in>set (failures (trace s')). snd f = BLOCK_ERROR_ACTION_STOP)"
  have res: "rv = 0 \<and> error s' = 0"
  proof (cases "bdrv_skip_filters_target env = base_overlay job")
    case True
    with a show ?thesis by (auto simp: stream_run_def init_state_def)
  next
    case False
    from a have run: "stream_run fuel env job = Some (Inr rv, job', s')"
      and len: "0 \<le> bdrv_co_getlength env"
      and st: "\<forall>f\<in>set (failures (trace s')). snd f = BLOCK_ERROR_ACTION_STOP"
      by simp_all
    from stream_run_loop [OF run False len] obtain tr ex s0 where
      f: "failures tr = []" and
      lp: "stream_loop fuel env job' (bdrv_co_getlength env) (init_state tr) = Some (ex, s0)" and
      r: "rv = error s0" "s' = s0\<lparr>trace := trace s0 @ [Ev_disable_iops_tracker]\<rparr>"
      by auto
    have i0: "err_inv (init_state tr)"
      using f by (simp add: err_inv_def init_state_def first_error_def)
    have inv: "err_inv s0"
      using lp i0 by (rule stream_loop_invariant [where P = err_inv]) (rule err_inv_step)
    from st r(2) have "\<forall>f\<in>set (failures (trace s0)). snd f = BLOCK_ERROR_ACTION_STOP"
      by (simp add: failures_append)
    then have "filter (\<lambda>f. snd f \<noteq> BLOCK_ERROR_ACTION_STOP) (failures (trace s0)) = []"
      by (simp add: filter_empty_conv)
    with inv have "error s0 = 0" by (simp add: err_inv_def first_error_def)
    with r show ?thesis by simp
  qed
  from res show "rv = 0" by simp
  from res show "error s' = 0" by simp
qed

theorem stream_run_stop_retries_same_offset_witness:
  "iteration_ret (faulty_env BLOCK_ERROR_ACTION_STOP) 1048576 0 0 = Some (- 5) \<and>
   (\<exists>s'. stream_iter (faulty_env BLOCK_ERROR_ACTION_STOP) scenario_job 1048576 (init_state [])
           = (Continue, s') \<and>
         n_bytes s' = 0 \<and> offset s' = 0 \<and> error s' = 0 \<and> progress s' = 0 \<and> iter s' = 1) \<and>
   (\<exists>job' s'. stream_run 4 (faulty_env BLOCK_ERROR_ACTION_STOP) scenario_job
                = Some (Inr 0, job', s') \<and>
              failures (trace s') =
                [(- 5, BLOCK_ERROR_ACTION_STOP), (- 28, BLOCK_ERROR_ACTION_STOP)] \<and>
              error s' = 0 \<and> offset s' = 1048576)"
proof -
  let ?env = "faulty_env BLOCK_ERROR_ACTION_STOP"
  let ?S = "snd (snd (the (stream_run 4 ?env scenario_job)))"
  note inst = stream_run_stop_retries_same_offset
    [where s = "init_state []" and len = 1048576 and env = ?env and ret = "- 5"
       and job = scenario_job and k = 3]
  have ir: "iteration_ret ?env 1048576 0 0 = Some (- 5)"
    by (simp add: iteration_ret_def classify_def stream_populate_def faulty_env_def
        STREAM_CHUNK_def SIZE_MAX_def uint64_of_def)
  then have h1: "offset (init_state []) < 1048576 \<and> \<not> job_is_cancelled ?env (iter (init_state [])) \<and>
    iteration_ret ?env 1048576 (iter (init_state [])) (offset (init_state [])) = Some (- 5) \<and>
    (- 5 :: int) < 0 \<and>
    block_job_error_action ?env (iter (init_state [])) (on_error scenario_job) True (- (- 5))
      = BLOCK_ERROR_ACTION_STOP"
    by (simp add: init_state_def faulty_env_def)
  from inst [THEN conjunct1, rule_format, OF h1]
  have p1: "\<exists>s'. stream_iter ?env scenario_job 1048576 (init_state []) = (Continue, s') \<and>
         n_bytes s' = 0 \<and> offset s' = 0 \<and> error s' = 0 \<and> progress s' = 0 \<and> iter s' = 1"
    by (auto simp: init_state_def)
  have run: "stream_run 4 ?env scenario_job = Some (Inr 0, scenario_job, ?S)"
    by (simp add: faulty_stop_run)
  have f: "failures (trace ?S) = [(- 5, BLOCK_ERROR_ACTION_STOP), (- 28, BLOCK_ERROR_ACTION_STOP)]"
    and o: "offset ?S = 1048576"
    by (simp_all add: faulty_stop_run)
  have h2: "stream_run 4 ?env scenario_job = Some (Inr 0, scenario_job, ?S) \<and>
      0 \<le> bdrv_co_getlength ?env \<and>
      (\<forall>f\<in>set (failures (trace ?S)). snd f = BLOCK_ERROR_ACTION_STOP)"
    using run by (simp add: f) (simp add: faulty_env_def)
  from inst [THEN conjunct2, rule_format, OF h2] have "error ?S = 0" by simp
  with ir p1 run f o show ?thesis by blast
qed

subsection \<open>\<^verbatim>\<open>bottom\<close> excludes \<^verbatim>\<open>base\<close> and the backing-file string\<close>

text \<open>
  Claim C10. \<^verbatim>\<open>stream_start\<close> asserts, before anything else, that \<^verbatim>\<open>bottom\<close> is not given
  together with \<^verbatim>\<open>base\<close> and not together with the backing-file string: a call that gives
  \<^verbatim>\<open>bottom\<close> with either of them fails an assertion with nothing done, so every call that
  ends otherwise satisfies \<open>\<not> (base \<and> bottom)\<close> and \<open>\<not> (backing_file_str \<and> bottom)\<close>.
\<close>

theorem stream_start_bottom_exclusive:
  "((base \<noteq> None \<and> bottom \<noteq> None) \<or> (backing_file_str' \<noteq> None \<and> bottom \<noteq> None) \<longrightarrow>
      stream_start fuel g bs base backing_file_str' backing_mask_protocol' bottom on_error'
        filter_node_name adaptive_stream' adaptive_threshold' pause_time'
      = Some (Start_assert_failed, [])) \<and>
   (\<forall>r evs.
      stream_start fuel g bs base backing_file_str' backing_mask_protocol' bottom on_error'
        filter_node_name adaptive_stream' adaptive_threshold' pause_time' = Some (r, evs) \<and>
      r \<noteq> Start_assert_failed \<longrightarrow>
        \<not> (base \<noteq> None \<and> bottom \<noteq> None) \<and> \<not> (backing_file_str' \<noteq> None \<and> bottom \<noteq> None))"
proof (intro conjI allI impI)
  assume "(base \<noteq> None \<and> bottom \<noteq> None) \<or> (backing_file_str' \<noteq> None \<and> bottom \<noteq> None)"
  then show "stream_start fuel g bs base backing_file_str' backing_mask_protocol' bottom
        on_error' filter_node_name adaptive_stream' adaptive_threshold' pause_time'
      = Some (Start_assert_failed, [])"
    unfolding stream_start_def by auto
next
  fix r evs
  assume a: "stream_start fuel g bs base backing_file_str' backing_mask_protocol' bottom
        on_error' filter_node_name adaptive_stream' adaptive_threshold' pause_time'
      = Some (r, evs) \<and> r \<noteq> Start_assert_failed"
  show "\<not> (base \<noteq> None \<and> bottom \<noteq> None)"
  proof
    assume "base \<noteq> None \<and> bottom \<noteq> None"
    then have "stream_start fuel g bs base backing_file_str' backing_mask_protocol' bottom
        on_error' filter_node_name adaptive_stream' adaptive_threshold' pause_time'
      = Some (Start_assert_failed, [])"
      unfolding stream_start_def by simp
    with a show False by auto
  qed
  show "\<not> (backing_file_str' \<noteq> None \<and> bottom \<noteq> None)"
  proof
    assume "backing_file_str' \<noteq> None \<and> bottom \<noteq> None"
    then have "stream_start fuel g bs base backing_file_str' backing_mask_protocol' bottom
        on_error' filter_node_name adaptive_stream' adaptive_threshold' pause_time'
      = Some (Start_assert_failed, [])"
      unfolding stream_start_def by simp
    with a show False by auto
  qed
qed

theorem stream_start_bottom_exclusive_witness:
  "stream_start 5 start_chain 0 (Some 2) None False (Some 1) BLOCKDEV_ON_ERROR_REPORT None False
     (1 :: real) 0 = Some (Start_assert_failed, []) \<and>
   stream_start 5 start_chain 0 None (Some ''new.img'') False (Some 1) BLOCKDEV_ON_ERROR_REPORT
     None False (1 :: real) 0 = Some (Start_assert_failed, []) \<and>
   stream_start 5 start_chain 0 (Some 2) None False None BLOCKDEV_ON_ERROR_REPORT None False
     (1 :: real) 0
   = Some (Start_running scenario_job,
           [Se_insert_node, Se_set_implicit, Se_block_job_create, Se_blk_new_with_bs,
            Se_add_bdrv (Some 0), Se_add_bdrv (Some 1), Se_job_start])"
proof -
  have h1: "(Some (2::nat) \<noteq> None \<and> Some (1::nat) \<noteq> None) \<or>
      ((None :: string option) \<noteq> None \<and> Some (1::nat) \<noteq> None)"
    by simp
  have h2: "((None :: nat option) \<noteq> None \<and> Some (1::nat) \<noteq> None) \<or>
      (Some ''new.img'' \<noteq> None \<and> Some (1::nat) \<noteq> None)"
    by simp
  note p1 = stream_start_bottom_exclusive
    [where base = "Some 2" and bottom = "Some 1" and backing_file_str' = None and fuel = 5
       and g = start_chain and bs = 0 and backing_mask_protocol' = False
       and on_error' = BLOCKDEV_ON_ERROR_REPORT and filter_node_name = None
       and adaptive_stream' = False and adaptive_threshold' = "1 :: real" and pause_time' = 0,
     THEN conjunct1, rule_format, OF h1]
  note p2 = stream_start_bottom_exclusive
    [where base = None and bottom = "Some 1" and backing_file_str' = "Some ''new.img''"
       and fuel = 5 and g = start_chain and bs = 0 and backing_mask_protocol' = False
       and on_error' = BLOCKDEV_ON_ERROR_REPORT and filter_node_name = None
       and adaptive_stream' = False and adaptive_threshold' = "1 :: real" and pause_time' = 0,
     THEN conjunct1, rule_format, OF h2]
  from p1 p2 start_chain_runs show ?thesis by simp
qed

end
